theory Spec2Isabelle
  imports Main "HOL-Library.Word"
begin

unbundle bit_operations_syntax

section \<open>Data model of the NFSv3 target (nfs/target.go)\<close>

text \<open>
  A Go \<^verbatim>\<open>[]byte\<close> is a byte list that may be \<^verbatim>\<open>nil\<close>: \<open>None\<close> is the nil slice,
  \<open>Some bs\<close> a slice holding \<open>bs\<close>. \<open>bytes\<close> gives the elements a \<^verbatim>\<open>range\<close> or
  \<^verbatim>\<open>len\<close> sees (none for nil).
\<close>

type_synonym byte = "8 word"
type_synonym slice = "byte list option"

definition bytes :: "slice \<Rightarrow> byte list" where
  "bytes s = (case s of None \<Rightarrow> [] | Some bs \<Rightarrow> bs)"

type_synonym NFS3Time = "32 word \<times> 32 word"

text \<open>
  Modelled from the spec: \<^verbatim>\<open>Fattr\<close> (declared in a file that is not under src/). The spec's
  data model lists its fields: object type, mode bits, link count, uid/gid, size, used bytes,
  rdev, filesystem id, file id and the three times. target.go reads \<^verbatim>\<open>Type\<close> and
  \<^verbatim>\<open>FileMode\<close>.
\<close>

record Fattr =
  Type :: "32 word"
  FileMode :: "32 word"
  Nlink :: "32 word"
  UID :: "32 word"
  GID :: "32 word"
  Filesize :: "64 word"
  Used :: "64 word"
  SpecData :: "32 word \<times> 32 word"
  FSID :: "64 word"
  Fileid :: "64 word"
  Atime :: NFS3Time
  Mtime :: NFS3Time
  Ctime :: NFS3Time

text \<open>The zero value of a Go \<^verbatim>\<open>Fattr\<close>: what a struct field holds when nothing was decoded into it.\<close>

definition Fattr_zero :: Fattr where
  "Fattr_zero = \<lparr>Type = 0, FileMode = 0, Nlink = 0, UID = 0, GID = 0, Filesize = 0, Used = 0,
     SpecData = (0, 0), FSID = 0, Fileid = 0, Atime = (0, 0), Mtime = (0, 0), Ctime = (0, 0)\<rparr>"

text \<open>Modelled from the spec: the object type constant \<^verbatim>\<open>NF3Dir\<close> (directory; 2 in RFC 1813).\<close>

definition NF3Dir :: "32 word" where
  "NF3Dir = 2"

text \<open>
  Modelled from the spec: \<^verbatim>\<open>PostOpAttr\<close> and \<^verbatim>\<open>PostOpFH3\<close>, the XDR optionals
  (a boolean followed by the payload iff true). On the wire they are \<open>'a option\<close>; the decoded
  Go struct has the discriminator and a payload field that keeps its zero value when the
  discriminator is false.
\<close>

record PostOpAttr =
  IsSet :: bool
  Attr :: Fattr

record PostOpFH3 =
  FH_IsSet :: bool
  FH_FH :: slice

definition decode_PostOpAttr :: "Fattr option \<Rightarrow> PostOpAttr" where
  "decode_PostOpAttr w = (case w of None \<Rightarrow> \<lparr>IsSet = False, Attr = Fattr_zero\<rparr>
                                   | Some a \<Rightarrow> \<lparr>IsSet = True, Attr = a\<rparr>)"

definition decode_PostOpFH3 :: "byte list option \<Rightarrow> PostOpFH3" where
  "decode_PostOpFH3 w = (case w of None \<Rightarrow> \<lparr>FH_IsSet = False, FH_FH = None\<rparr>
                                  | Some h \<Rightarrow> \<lparr>FH_IsSet = True, FH_FH = Some h\<rparr>)"

section \<open>Errors\<close>

text \<open>
  Modelled from the spec: the NFS3 status codes (section 7 of the spec names the closed
  enumeration; the constants are declared in a file that is not under src/). \<open>NFS3Ok\<close> is
  status 0.
\<close>

datatype nfsstat3 =
    NFS3Ok | NFS3ErrPerm | NFS3ErrNoEnt | NFS3ErrIO | NFS3ErrNXIO | NFS3ErrAcces | NFS3ErrExist
  | NFS3ErrXDev | NFS3ErrNoDev | NFS3ErrNotDir | NFS3ErrIsDir | NFS3ErrInval | NFS3ErrFBig
  | NFS3ErrNoSpc | NFS3ErrROFS | NFS3ErrMLink | NFS3ErrNameTooLong | NFS3ErrNotEmpty
  | NFS3ErrDQuot | NFS3ErrStale | NFS3ErrRemote | NFS3ErrBadHandle | NFS3ErrNotSync
  | NFS3ErrBadCookie | NFS3ErrNotSupp | NFS3ErrTooSmall | NFS3ErrServerFault | NFS3ErrBadType
  | NFS3ErrJukebox

text \<open>
  The Go \<^verbatim>\<open>error\<close> values target.go can return: an error of the RPC channel
  (\<^verbatim>\<open>v.Call\<close>), an error of the XDR reader, a protocol error made by \<^verbatim>\<open>NFS3Error\<close>, and the
  core's own \<^verbatim>\<open>fmt.Errorf\<close> messages.
\<close>

datatype error =
    ChannelError string
  | XdrError string
  | NFS3Err nfsstat3
  | Errorf string

text \<open>
  Modelled from the spec: \<^verbatim>\<open>NFS3Error\<close> (not under src/) translates a nonzero status into a
  typed protocol error and status 0 into \<^verbatim>\<open>nil\<close>.
\<close>

definition NFS3Error :: "nfsstat3 \<Rightarrow> error option" where
  "NFS3Error status = (if status = NFS3Ok then None else Some (NFS3Err status))"

text \<open>
  Modelled from the spec: the two predicates RemoveAll branches on. Section 4.4 of the spec:
  after the first RMDIR, success or NOENT returns success (\<^verbatim>\<open>os.IsNotExist\<close>), and NOTDIR is
  surfaced (\<^verbatim>\<open>IsNotDirError\<close>, declared in a file that is not under src/).
\<close>

definition os_IsNotExist :: "error \<Rightarrow> bool" where
  "os_IsNotExist err = (err = NFS3Err NFS3ErrNoEnt)"

definition IsNotDirError :: "error \<Rightarrow> bool" where
  "IsNotDirError err = (err = NFS3Err NFS3ErrNotDir)"

section \<open>RPC requests and replies\<close>

text \<open>
  Modelled from the spec: \<^verbatim>\<open>rpc.Auth\<close> and \<^verbatim>\<open>rpc.AuthNull\<close> (package rpc is not under src/):
  a credential is a flavor and an opaque body, AUTH_NULL is flavor 0 with an empty body.
\<close>

record Auth =
  Flavor :: "32 word"
  Body :: "byte list"

definition AuthNull :: Auth where
  "AuthNull = \<lparr>Flavor = 0, Body = []\<rparr>"

text \<open>
  Modelled from the spec: the program and version constants (prog = 100003, vers = 3), and the
  procedure constants, kept by name (the numbers are declared in a file that is not under src/).
\<close>

definition Nfs3Prog :: "32 word" where
  "Nfs3Prog = 100003"

definition Nfs3Vers :: "32 word" where
  "Nfs3Vers = 3"

datatype nfsproc =
    NFSProc3GetAttr | NFSProc3SetAttr | NFSProc3Lookup | NFSProc3Access | NFSProc3Readlink
  | NFSProc3Create | NFSProc3Mkdir | NFSProc3Remove | NFSProc3RmDir | NFSProc3Rename
  | NFSProc3ReadDirPlus | NFSProc3FSInfo

record Header =
  Rpcvers :: "32 word"
  Prog :: "32 word"
  Vers :: "32 word"
  Proc :: nfsproc
  Cred :: Auth
  Verf :: Auth

record Diropargs3 =
  FH :: slice
  Filename :: string

text \<open>
  Modelled from the spec: \<^verbatim>\<open>Sattr3\<close> (not under src/), the per-field set/don't-set wrappers for
  mode, uid, gid, size, atime and mtime. target.go fills \<^verbatim>\<open>Mode\<close> and \<^verbatim>\<open>Size\<close>; a wrapper it
  leaves out keeps its zero value (not set).
\<close>

record SetMode =
  SetMode_SetIt :: bool
  SetMode_Mode :: "32 word"

record SetSize =
  SetSize_SetIt :: bool
  SetSize_Size :: "64 word"

record Sattr3 =
  Sattr3_Mode :: SetMode
  Sattr3_UID :: "bool \<times> 32 word"
  Sattr3_GID :: "bool \<times> 32 word"
  Sattr3_Size :: SetSize
  Sattr3_Atime :: "32 word \<times> NFS3Time"
  Sattr3_Mtime :: "32 word \<times> NFS3Time"

definition SetMode_zero :: SetMode where
  "SetMode_zero = \<lparr>SetMode_SetIt = False, SetMode_Mode = 0\<rparr>"

definition SetSize_zero :: SetSize where
  "SetSize_zero = \<lparr>SetSize_SetIt = False, SetSize_Size = 0\<rparr>"

definition Sattr3_zero :: Sattr3 where
  "Sattr3_zero = \<lparr>Sattr3_Mode = SetMode_zero, Sattr3_UID = (False, 0), Sattr3_GID = (False, 0),
     Sattr3_Size = SetSize_zero, Sattr3_Atime = (0, (0, 0)), Sattr3_Mtime = (0, (0, 0))\<rparr>"

text \<open>\<^verbatim>\<open>type How struct { Mode uint32; Attr Sattr3 }\<close> (0 is UNCHECKED).\<close>

record How =
  How_Mode :: "32 word"
  How_Attr :: Sattr3

text \<open>\<^verbatim>\<open>type Guard struct { Check bool; Ctime NFS3Time }\<close>\<close>

record Guard =
  Check :: bool
  Guard_Ctime :: NFS3Time

text \<open>\<^verbatim>\<open>os.FileMode.Perm\<close>: the permission bits, \<^verbatim>\<open>m & 0o777\<close>.\<close>

definition Perm :: "32 word \<Rightarrow> 32 word" where
  "Perm m = m AND 511"

text \<open>
  The argument structs of target.go, one constructor each, the embedded \<^verbatim>\<open>rpc.Header\<close> first.
  \<^verbatim>\<open>GetAttrArgs\<close> (GetAttrFh) and \<^verbatim>\<open>GetAttr3Args\<close> (GetAttrByFh) have the same layout and are
  one constructor; so are the \<^verbatim>\<open>Create3Args\<close> of CreateTruncate and CreateByFh.
\<close>

datatype rpc_call =
    FSInfoArgs Header slice
  | Lookup3Args Header Diropargs3
  | Access3Args Header slice "32 word"
  | ReadDirPlus3Args Header slice "64 word" "64 word" "32 word" "32 word"
  | MkdirArgs Header Diropargs3 Sattr3
  | Create3Args Header Diropargs3 How
  | GetAttrArgs Header slice
  | RemoveArgs Header Diropargs3
  | RmDir3Args Header Diropargs3
  | SetAttr3Args Header slice Sattr3 Guard
  | Rename3Args Header Diropargs3 Diropargs3
  | Readlink3Arg Header slice

text \<open>
  Modelled from the spec: \<^verbatim>\<open>FSInfo\<close>, \<^verbatim>\<open>WccData\<close> and \<^verbatim>\<open>EntryPlus\<close> (not under src/).
  FSInfo holds the block-size hints, the maximum file size, the time delta and the properties;
  WccData the pre-operation weak attributes and the post-operation attributes; an EntryPlus
  the file id, name, cookie, name attributes and handle of one directory entry.
\<close>

record FSInfo =
  FSInfo_Attr :: PostOpAttr
  RTMax :: "32 word"
  RTPref :: "32 word"
  RTMult :: "32 word"
  WTMax :: "32 word"
  WTPref :: "32 word"
  WTMult :: "32 word"
  DTPref :: "32 word"
  MaxFileSize :: "64 word"
  TimeDelta :: NFS3Time
  Properties :: "32 word"

record WccData =
  Before :: "(64 word \<times> NFS3Time \<times> NFS3Time) option"
  After :: "Fattr option"

record EntryPlus =
  FileId :: "64 word"
  FileName :: string
  Cookie :: "64 word"
  EntryPlus_Attr :: PostOpAttr
  Handle :: PostOpFH3

text \<open>
  What the server sends after the status word, by reply shape. The optionals are on the wire
  as \<open>option\<close>. A READDIRPLUS body is the preamble (directory attributes, cookie verifier),
  the entries that decode, and then either the final \<^verbatim>\<open>eof\<close> boolean or the error at which the
  reader stops. \<open>Undecodable\<close> is a body the XDR reader rejects.
\<close>

type_synonym wire_entry = "64 word \<times> string \<times> 64 word \<times> Fattr option \<times> byte list option"

datatype resbody =
    FSInfoRes FSInfo
  | LookupRes "byte list" "Fattr option" "Fattr option"
  | AccessRes "Fattr option" "32 word"
  | GetAttrRes Fattr
  | CreateRes "byte list option" "Fattr option" WccData
  | WccRes WccData
  | RenameRes WccData WccData
  | ReadlinkRes "Fattr option" string
  | ReadDirPlusRes "Fattr option" "64 word" "wire_entry list" "error + bool"
  | Undecodable error

text \<open>
  What \<^verbatim>\<open>v.Call\<close> and the read of the status word give: an error of the channel, an error
  reading the status, or a status and the rest of the body.
\<close>

datatype rpc_reply =
    CallFailed error
  | StatusUnreadable error
  | Reply nfsstat3 resbody

text \<open>
  The channel is the list of requests sent so far; the server is any function from that
  history and the next request to a reply.
\<close>

type_synonym trace = "rpc_call list"
type_synonym server = "trace \<Rightarrow> rpc_call \<Rightarrow> rpc_reply"

record Target =
  Target_auth :: Auth
  Target_fh :: slice
  Target_dirPath :: string
  Target_fsinfo :: "FSInfo option"

text \<open>\<^verbatim>\<open>func (v *Target) call(c interface{}) (io.ReadSeeker, error)\<close>\<close>

definition call :: "server \<Rightarrow> rpc_call \<Rightarrow> trace \<Rightarrow> (error + resbody) \<times> trace" where
  "call srv c tr =
     (case srv tr c of
        CallFailed err \<Rightarrow> (Inl err, tr @ [c])
      | StatusUnreadable err \<Rightarrow> (Inl err, tr @ [c])
      | Reply status res \<Rightarrow>
          (case NFS3Error status of
             Some err \<Rightarrow> (Inl err, tr @ [c])
           | None \<Rightarrow> (Inr res, tr @ [c])))"

text \<open>
  \<^verbatim>\<open>xdr.Read(res, &value)\<close> at each reply struct of target.go: the body decodes when it has
  the struct's shape, and the reader's error is returned otherwise.
\<close>

definition xdr_mismatch :: error where
  "xdr_mismatch = XdrError ''unexpected reply body''"

definition xdr_error_of :: "resbody \<Rightarrow> error" where
  "xdr_error_of res = (case res of Undecodable err \<Rightarrow> err | _ \<Rightarrow> xdr_mismatch)"

section \<open>sameHandle\<close>

text \<open>
  \<^verbatim>\<open>func sameHandle(a []byte, b []byte) bool\<close>: the length test, then the loop
  \<^verbatim>\<open>for i, av := range a { if b[i] != av { return false } }\<close>. The loop is
  \<open>sameHandle_loop\<close>, started at index 0; \<open>b ! i\<close> is in range because the lengths are equal.
\<close>

fun sameHandle_loop :: "nat \<Rightarrow> byte list \<Rightarrow> byte list \<Rightarrow> bool" where
  "sameHandle_loop i [] b = True"
| "sameHandle_loop i (av # as) b = (if b ! i \<noteq> av then False else sameHandle_loop (Suc i) as b)"

definition sameHandle :: "byte list \<Rightarrow> byte list \<Rightarrow> bool" where
  "sameHandle a b = (if length a \<noteq> length b then False else sameHandle_loop 0 a b)"

section \<open>Procedure envelopes used by the path resolver\<close>

text \<open>\<^verbatim>\<open>func (v *Target) FSInfo() (*FSInfo, error)\<close>\<close>

definition FSInfo :: "Target \<Rightarrow> server \<Rightarrow> trace \<Rightarrow> (error + FSInfo) \<times> trace" where
  "FSInfo v srv tr =
     (case call srv (FSInfoArgs
             \<lparr>Rpcvers = 2, Prog = Nfs3Prog, Vers = Nfs3Vers, Proc = NFSProc3FSInfo,
              Cred = Target_auth v, Verf = AuthNull\<rparr>
             (Target_fh v)) tr of
        (Inl err, tr1) \<Rightarrow> (Inl err, tr1)
      | (Inr res, tr1) \<Rightarrow>
          (case res of
             FSInfoRes fsinfo \<Rightarrow> (Inr fsinfo, tr1)
           | _ \<Rightarrow> (Inl (xdr_error_of res), tr1)))"

text \<open>
  \<^verbatim>\<open>func NewTargetWithClient(client, auth, fh, dirpath) (*Target, error)\<close>: the Target is
  built, one FSINFO is issued, and its reply is kept.
\<close>

definition NewTargetWithClient ::
  "server \<Rightarrow> Auth \<Rightarrow> slice \<Rightarrow> string \<Rightarrow> trace \<Rightarrow> (error + Target) \<times> trace" where
  "NewTargetWithClient srv auth fh dirpath tr =
     (let vol = \<lparr>Target_auth = auth, Target_fh = fh, Target_dirPath = dirpath, Target_fsinfo = None\<rparr> in
      case FSInfo vol srv tr of
        (Inl err, tr1) \<Rightarrow> (Inl err, tr1)
      | (Inr fsinfo, tr1) \<Rightarrow> (Inr (vol\<lparr>Target_fsinfo := Some fsinfo\<rparr>), tr1))"

text \<open>
  \<^verbatim>\<open>func (v *Target) lookup(fh []byte, name string) (*Fattr, []byte, *Fattr, error)\<close>: the
  attributes are returned as \<^verbatim>\<open>&lookupres.Attr.Attr\<close>, whether or not the server set them.
\<close>

definition lookup ::
  "Target \<Rightarrow> server \<Rightarrow> slice \<Rightarrow> string \<Rightarrow> trace \<Rightarrow> (error + Fattr \<times> slice \<times> Fattr) \<times> trace" where
  "lookup v srv fh name tr =
     (case call srv (Lookup3Args
             \<lparr>Rpcvers = 2, Prog = Nfs3Prog, Vers = Nfs3Vers, Proc = NFSProc3Lookup,
              Cred = Target_auth v, Verf = AuthNull\<rparr>
             \<lparr>FH = fh, Filename = name\<rparr>) tr of
        (Inl err, tr1) \<Rightarrow> (Inl err, tr1)
      | (Inr res, tr1) \<Rightarrow>
          (case res of
             LookupRes h a da \<Rightarrow>
               (Inr (Attr (decode_PostOpAttr a), Some h, Attr (decode_PostOpAttr da)), tr1)
           | _ \<Rightarrow> (Inl (xdr_error_of res), tr1)))"

text \<open>\<^verbatim>\<open>func (v *Target) readlinkFh(fh []byte) (*Fattr, string, error)\<close>\<close>

definition readlinkFh ::
  "Target \<Rightarrow> server \<Rightarrow> slice \<Rightarrow> trace \<Rightarrow> (error + Fattr \<times> string) \<times> trace" where
  "readlinkFh v srv fh tr =
     (case call srv (Readlink3Arg
             \<lparr>Rpcvers = 2, Prog = Nfs3Prog, Vers = Nfs3Vers, Proc = NFSProc3Readlink,
              Cred = Target_auth v, Verf = AuthNull\<rparr>
             fh) tr of
        (Inl err, tr1) \<Rightarrow> (Inl err, tr1)
      | (Inr res, tr1) \<Rightarrow>
          (case res of
             ReadlinkRes a target \<Rightarrow> (Inr (Attr (decode_PostOpAttr a), target), tr1)
           | _ \<Rightarrow> (Inl (xdr_error_of res), tr1)))"

section \<open>The path resolver\<close>

text \<open>
  \<^verbatim>\<open>strings.Split(p, "/")\<close>: the substrings between the slashes; never empty (the empty path
  gives one empty component).
\<close>

fun strings_Split :: "string \<Rightarrow> string list" where
  "strings_Split [] = [[]]"
| "strings_Split (c # cs) =
     (if c = CHR ''/'' then [] # strings_Split cs
      else (case strings_Split cs of
              [] \<Rightarrow> [[c]]
            | x # xs \<Rightarrow> (c # x) # xs))"

text \<open>The symlink test of lookupInner: \<^verbatim>\<open>fattr.FileMode&0o170000 == 0o120000\<close>.\<close>

definition is_symlink :: "Fattr \<Rightarrow> bool" where
  "is_symlink fattr = (FileMode fattr AND 61440 = 40960)"

text \<open>
  \<^verbatim>\<open>func (v *Target) lookupInner(fh, p, lookupLast, lookupOrigin)\<close>. The loop over
  \<^verbatim>\<open>dirents\<close> is \<open>lookupInner_loop\<close>, on the components still to visit and the loop's
  variables \<open>(fattr, fh, dirent, prevFh)\<close>; \<^verbatim>\<open>i == len(dirents)\<close> after \<^verbatim>\<open>i += 1\<close> is
  \<open>rest = []\<close>. The recursive call for a symlink starts a new loop at the Target's root with
  the symlink's handle as origin; its error is assigned and never read, and of its results
  only the handle is kept (nil when it failed). The recursion can go on for ever (a symlink
  cycle), so each nested resolution takes one unit of fuel and \<open>None\<close> is "no fuel left".
\<close>

type_synonym lookup_vars = "Fattr option \<times> slice \<times> string \<times> slice"

fun lookupInner_loop ::
  "nat \<Rightarrow> Target \<Rightarrow> server \<Rightarrow> bool \<Rightarrow> slice \<Rightarrow> string list \<Rightarrow> lookup_vars \<Rightarrow> trace
     \<Rightarrow> (error + lookup_vars) option \<times> trace" where
  "lookupInner_loop n v srv lookupLast lookupOrigin [] (fattr, fh, dirent, prevFh) tr =
     (Some (Inr (fattr, fh, dirent, prevFh)), tr)"
| "lookupInner_loop n v srv lookupLast lookupOrigin (d # rest) (fattr, fh, dirent, prevFh) tr =
     (if rest = [] \<and> \<not> lookupLast then (Some (Inr (None, None, d, fh)), tr)
      else if d = ''.'' \<or> d = '''' then
        lookupInner_loop n v srv lookupLast lookupOrigin rest (fattr, fh, d, fh) tr
      else
        (case lookup v srv fh d tr of
           (Inl err, tr1) \<Rightarrow> (Some (Inl err), tr1)
         | (Inr (fattr', fh', _), tr1) \<Rightarrow>
             if is_symlink fattr' then
               if lookupOrigin \<noteq> None \<and> sameHandle (bytes fh') (bytes lookupOrigin)
               then (Some (Inl (Errorf ''recursed symlink'')), tr1)
               else
                 (case readlinkFh v srv fh' tr1 of
                    (Inl err, tr2) \<Rightarrow> (Some (Inl err), tr2)
                  | (Inr (_, target), tr2) \<Rightarrow>
                      (case n of
                         0 \<Rightarrow> (None, tr2)
                       | Suc m \<Rightarrow>
                           (case lookupInner_loop m v srv True fh' (strings_Split target)
                                   (None, Target_fh v, '''', None) tr2 of
                              (None, tr3) \<Rightarrow> (None, tr3)
                            | (Some (Inl _), tr3) \<Rightarrow>
                                lookupInner_loop n v srv lookupLast lookupOrigin rest
                                  (Some fattr', None, d, fh) tr3
                            | (Some (Inr (_, fh'', _, _)), tr3) \<Rightarrow>
                                lookupInner_loop n v srv lookupLast lookupOrigin rest
                                  (Some fattr', fh'', d, fh) tr3)))
             else
               lookupInner_loop n v srv lookupLast lookupOrigin rest (Some fattr', fh', d, fh) tr1))"

definition lookupInner ::
  "nat \<Rightarrow> Target \<Rightarrow> server \<Rightarrow> slice \<Rightarrow> string \<Rightarrow> bool \<Rightarrow> slice \<Rightarrow> trace
     \<Rightarrow> (error + lookup_vars) option \<times> trace" where
  "lookupInner n v srv fh p lookupLast lookupOrigin tr =
     lookupInner_loop n v srv lookupLast lookupOrigin (strings_Split p) (None, fh, '''', None) tr"

text \<open>\<^verbatim>\<open>func (v *Target) Lookup(p string) (os.FileInfo, []byte, error)\<close>\<close>

definition Lookup ::
  "nat \<Rightarrow> Target \<Rightarrow> server \<Rightarrow> string \<Rightarrow> trace \<Rightarrow> (error + Fattr option \<times> slice) option \<times> trace" where
  "Lookup n v srv p tr =
     (case lookupInner n v srv (Target_fh v) p True None tr of
        (None, tr1) \<Rightarrow> (None, tr1)
      | (Some (Inl err), tr1) \<Rightarrow> (Some (Inl err), tr1)
      | (Some (Inr (fattr, fh, _, _)), tr1) \<Rightarrow> (Some (Inr (fattr, fh)), tr1))"

section \<open>The directory pager\<close>

text \<open>
  The decoding of one entry of the READDIRPLUS list into \<^verbatim>\<open>EntryPlus\<close>, and of the preamble
  \<^verbatim>\<open>DirListOK { DirAttrs PostOpAttr; CookieVerf uint64 }\<close>.
\<close>

record DirListOK =
  DirAttrs :: PostOpAttr
  CookieVerf :: "64 word"

definition decode_EntryPlus :: "wire_entry \<Rightarrow> EntryPlus" where
  "decode_EntryPlus w =
     (case w of (fileid, name, cookie, a, h) \<Rightarrow>
        \<lparr>FileId = fileid, FileName = name, Cookie = cookie,
         EntryPlus_Attr = decode_PostOpAttr a, Handle = decode_PostOpFH3 h\<rparr>)"

text \<open>
  The inner \<^verbatim>\<open>for\<close> of ReadDirPlusByFh over the entries of one page: each entry sets
  \<^verbatim>\<open>cookie = item.Entry.Cookie\<close> and is appended to \<^verbatim>\<open>entries\<close>.
\<close>

fun read_entries :: "wire_entry list \<Rightarrow> 64 word \<Rightarrow> EntryPlus list \<Rightarrow> 64 word \<times> EntryPlus list" where
  "read_entries [] cookie entries = (cookie, entries)"
| "read_entries (w # ws) cookie entries =
     read_entries ws (Cookie (decode_EntryPlus w)) (entries @ [decode_EntryPlus w])"

text \<open>
  \<^verbatim>\<open>func (v *Target) ReadDirPlusByFh(fh []byte) ([]*EntryPlus, error)\<close>: the loop
  \<^verbatim>\<open>for !eof\<close> on \<open>(cookie, cookieVerf, entries)\<close>. The server may never send \<^verbatim>\<open>eof\<close>,
  so each page takes one unit of fuel and \<open>None\<close> is "no fuel left".
\<close>

fun ReadDirPlus_loop ::
  "nat \<Rightarrow> Target \<Rightarrow> server \<Rightarrow> slice \<Rightarrow> 64 word \<Rightarrow> 64 word \<Rightarrow> EntryPlus list \<Rightarrow> trace
     \<Rightarrow> (error + EntryPlus list) option \<times> trace" where
  "ReadDirPlus_loop 0 v srv fh cookie cookieVerf entries tr = (None, tr)"
| "ReadDirPlus_loop (Suc n) v srv fh cookie cookieVerf entries tr =
     (case call srv (ReadDirPlus3Args
             \<lparr>Rpcvers = 2, Prog = Nfs3Prog, Vers = Nfs3Vers, Proc = NFSProc3ReadDirPlus,
              Cred = Target_auth v, Verf = AuthNull\<rparr>
             fh cookie cookieVerf 512 4096) tr of
        (Inl err, tr1) \<Rightarrow> (Some (Inl err), tr1)
      | (Inr res, tr1) \<Rightarrow>
          (case res of
             ReadDirPlusRes da verf ws tail \<Rightarrow>
               (let dirlistOK = \<lparr>DirAttrs = decode_PostOpAttr da, CookieVerf = verf\<rparr>;
                    (cookie', entries') = read_entries ws cookie entries
                in case tail of
                     Inl err \<Rightarrow> (Some (Inl err), tr1)
                   | Inr eof \<Rightarrow>
                       if eof then (Some (Inr entries'), tr1)
                       else ReadDirPlus_loop n v srv fh cookie' (CookieVerf dirlistOK) entries' tr1)
           | _ \<Rightarrow> (Some (Inl (xdr_error_of res)), tr1)))"

definition ReadDirPlusByFh ::
  "nat \<Rightarrow> Target \<Rightarrow> server \<Rightarrow> slice \<Rightarrow> trace \<Rightarrow> (error + EntryPlus list) option \<times> trace" where
  "ReadDirPlusByFh n v srv fh tr = ReadDirPlus_loop n v srv fh 0 0 [] tr"

text \<open>\<^verbatim>\<open>func (v *Target) ReadDirPlus(dir string) ([]*EntryPlus, error)\<close>\<close>

definition ReadDirPlus ::
  "nat \<Rightarrow> Target \<Rightarrow> server \<Rightarrow> string \<Rightarrow> trace \<Rightarrow> (error + EntryPlus list) option \<times> trace" where
  "ReadDirPlus n v srv dir tr =
     (case Lookup n v srv dir tr of
        (None, tr1) \<Rightarrow> (None, tr1)
      | (Some (Inl err), tr1) \<Rightarrow> (Some (Inl err), tr1)
      | (Some (Inr (_, fh)), tr1) \<Rightarrow> ReadDirPlusByFh n v srv fh tr1)"

section \<open>The other procedure envelopes\<close>

text \<open>\<^verbatim>\<open>func (v *Target) access(fh []byte, path string, access uint32) (*Fattr, uint32, error)\<close>\<close>

definition access ::
  "Target \<Rightarrow> server \<Rightarrow> slice \<Rightarrow> string \<Rightarrow> 32 word \<Rightarrow> trace \<Rightarrow> (error + Fattr \<times> 32 word) \<times> trace" where
  "access v srv fh path' mode tr =
     (case call srv (Access3Args
             \<lparr>Rpcvers = 2, Prog = Nfs3Prog, Vers = Nfs3Vers, Proc = NFSProc3Access,
              Cred = Target_auth v, Verf = AuthNull\<rparr>
             fh mode) tr of
        (Inl err, tr1) \<Rightarrow> (Inl err, tr1)
      | (Inr res, tr1) \<Rightarrow>
          (case res of
             AccessRes a granted \<Rightarrow> (Inr (Attr (decode_PostOpAttr a), granted), tr1)
           | _ \<Rightarrow> (Inl (xdr_error_of res), tr1)))"

text \<open>\<^verbatim>\<open>func (v *Target) Access(path string, mode uint32) (uint32, error)\<close>\<close>

definition Access ::
  "nat \<Rightarrow> Target \<Rightarrow> server \<Rightarrow> string \<Rightarrow> 32 word \<Rightarrow> trace \<Rightarrow> (error + 32 word) option \<times> trace" where
  "Access n v srv path' mode tr =
     (case Lookup n v srv path' tr of
        (None, tr1) \<Rightarrow> (None, tr1)
      | (Some (Inl err), tr1) \<Rightarrow> (Some (Inl err), tr1)
      | (Some (Inr (_, fh)), tr1) \<Rightarrow>
          (case access v srv fh path' mode tr1 of
             (Inl err, tr2) \<Rightarrow> (Some (Inl err), tr2)
           | (Inr (_, mode'), tr2) \<Rightarrow> (Some (Inr mode'), tr2)))"

text \<open>
  \<^verbatim>\<open>path.Split\<close>: the path up to and including its last slash, and the rest.
\<close>

definition path_Split :: "string \<Rightarrow> string \<times> string" where
  "path_Split p =
     (let file = rev (takeWhile (\<lambda>c. c \<noteq> CHR ''/'') (rev p))
      in (take (length p - length file) p, file))"

text \<open>
  \<^verbatim>\<open>func (v *Target) MkdirByParentFh(fh []byte, name string, perm os.FileMode) ([]byte, error)\<close>:
  it returns \<^verbatim>\<open>mkdirres.FH.FH\<close>, the payload field of the decoded optional handle.
\<close>

definition MkdirByParentFh ::
  "Target \<Rightarrow> server \<Rightarrow> slice \<Rightarrow> string \<Rightarrow> 32 word \<Rightarrow> trace \<Rightarrow> (error + slice) \<times> trace" where
  "MkdirByParentFh v srv fh name perm tr =
     (case call srv (MkdirArgs
             \<lparr>Rpcvers = 2, Prog = Nfs3Prog, Vers = Nfs3Vers, Proc = NFSProc3Mkdir,
              Cred = Target_auth v, Verf = AuthNull\<rparr>
             \<lparr>FH = fh, Filename = name\<rparr>
             (Sattr3_zero\<lparr>Sattr3_Mode := \<lparr>SetMode_SetIt = True, SetMode_Mode = Perm perm\<rparr>\<rparr>)) tr of
        (Inl err, tr1) \<Rightarrow> (Inl err, tr1)
      | (Inr res, tr1) \<Rightarrow>
          (case res of
             CreateRes h a wcc \<Rightarrow> (Inr (FH_FH (decode_PostOpFH3 h)), tr1)
           | _ \<Rightarrow> (Inl (xdr_error_of res), tr1)))"

text \<open>\<^verbatim>\<open>func (v *Target) Mkdir(path string, perm os.FileMode) ([]byte, error)\<close>\<close>

definition Mkdir ::
  "nat \<Rightarrow> Target \<Rightarrow> server \<Rightarrow> string \<Rightarrow> 32 word \<Rightarrow> trace \<Rightarrow> (error + slice) option \<times> trace" where
  "Mkdir n v srv path' perm tr =
     (case path_Split path' of (dir, newDir) \<Rightarrow>
        (case Lookup n v srv dir tr of
           (None, tr1) \<Rightarrow> (None, tr1)
         | (Some (Inl err), tr1) \<Rightarrow> (Some (Inl err), tr1)
         | (Some (Inr (_, fh)), tr1) \<Rightarrow>
             (case MkdirByParentFh v srv fh newDir perm tr1 of
                (r, tr2) \<Rightarrow> (Some r, tr2))))"

text \<open>\<^verbatim>\<open>func (v *Target) CreateByFh(fh []byte, name string, perm os.FileMode) ([]byte, error)\<close>\<close>

definition CreateByFh ::
  "Target \<Rightarrow> server \<Rightarrow> slice \<Rightarrow> string \<Rightarrow> 32 word \<Rightarrow> trace \<Rightarrow> (error + slice) \<times> trace" where
  "CreateByFh v srv fh name perm tr =
     (case call srv (Create3Args
             \<lparr>Rpcvers = 2, Prog = Nfs3Prog, Vers = Nfs3Vers, Proc = NFSProc3Create,
              Cred = Target_auth v, Verf = AuthNull\<rparr>
             \<lparr>FH = fh, Filename = name\<rparr>
             \<lparr>How_Mode = 0,
              How_Attr = Sattr3_zero\<lparr>Sattr3_Mode := \<lparr>SetMode_SetIt = True, SetMode_Mode = Perm perm\<rparr>\<rparr>\<rparr>) tr of
        (Inl err, tr1) \<Rightarrow> (Inl err, tr1)
      | (Inr res, tr1) \<Rightarrow>
          (case res of
             CreateRes h a wcc \<Rightarrow> (Inr (FH_FH (decode_PostOpFH3 h)), tr1)
           | _ \<Rightarrow> (Inl (xdr_error_of res), tr1)))"

text \<open>\<^verbatim>\<open>func (v *Target) Create(path string, perm os.FileMode) ([]byte, error)\<close>\<close>

definition Create ::
  "nat \<Rightarrow> Target \<Rightarrow> server \<Rightarrow> string \<Rightarrow> 32 word \<Rightarrow> trace \<Rightarrow> (error + slice) option \<times> trace" where
  "Create n v srv path' perm tr =
     (case lookupInner n v srv (Target_fh v) path' False None tr of
        (None, tr1) \<Rightarrow> (None, tr1)
      | (Some (Inl err), tr1) \<Rightarrow> (Some (Inl err), tr1)
      | (Some (Inr (_, _, newFile, fh)), tr1) \<Rightarrow>
          (case CreateByFh v srv fh newFile perm tr1 of
             (r, tr2) \<Rightarrow> (Some r, tr2)))"

text \<open>
  \<^verbatim>\<open>func (v *Target) CreateTruncate(path string, perm os.FileMode, size uint64) ([]byte, error)\<close>
\<close>

definition CreateTruncate ::
  "nat \<Rightarrow> Target \<Rightarrow> server \<Rightarrow> string \<Rightarrow> 32 word \<Rightarrow> 64 word \<Rightarrow> trace
     \<Rightarrow> (error + slice) option \<times> trace" where
  "CreateTruncate n v srv path' perm size' tr =
     (case lookupInner n v srv (Target_fh v) path' False None tr of
        (None, tr1) \<Rightarrow> (None, tr1)
      | (Some (Inl err), tr1) \<Rightarrow> (Some (Inl err), tr1)
      | (Some (Inr (_, _, newFile, fh)), tr1) \<Rightarrow>
          (case call srv (Create3Args
                  \<lparr>Rpcvers = 2, Prog = Nfs3Prog, Vers = Nfs3Vers, Proc = NFSProc3Create,
                   Cred = Target_auth v, Verf = AuthNull\<rparr>
                  \<lparr>FH = fh, Filename = newFile\<rparr>
                  \<lparr>How_Mode = 0,
                   How_Attr = Sattr3_zero
                     \<lparr>Sattr3_Mode := \<lparr>SetMode_SetIt = True, SetMode_Mode = Perm perm\<rparr>,
                      Sattr3_Size := \<lparr>SetSize_SetIt = True, SetSize_Size = size'\<rparr>\<rparr>\<rparr>) tr1 of
             (Inl err, tr2) \<Rightarrow> (Some (Inl err), tr2)
           | (Inr res, tr2) \<Rightarrow>
               (case res of
                  CreateRes h a wcc \<Rightarrow> (Some (Inr (FH_FH (decode_PostOpFH3 h))), tr2)
                | _ \<Rightarrow> (Some (Inl (xdr_error_of res)), tr2))))"

text \<open>
  \<^verbatim>\<open>func (v *Target) GetAttrFh(fh []byte) (*Fattr, error)\<close> and
  \<^verbatim>\<open>func (v *Target) GetAttrByFh(fh []byte) (*Fattr, error)\<close>: the same request and the same
  decoding, written twice in the source.
\<close>

definition GetAttrFh :: "Target \<Rightarrow> server \<Rightarrow> slice \<Rightarrow> trace \<Rightarrow> (error + Fattr) \<times> trace" where
  "GetAttrFh v srv fh tr =
     (case call srv (GetAttrArgs
             \<lparr>Rpcvers = 2, Prog = Nfs3Prog, Vers = Nfs3Vers, Proc = NFSProc3GetAttr,
              Cred = Target_auth v, Verf = AuthNull\<rparr>
             fh) tr of
        (Inl err, tr1) \<Rightarrow> (Inl err, tr1)
      | (Inr res, tr1) \<Rightarrow>
          (case res of
             GetAttrRes a \<Rightarrow> (Inr a, tr1)
           | _ \<Rightarrow> (Inl (xdr_error_of res), tr1)))"

definition GetAttrByFh :: "Target \<Rightarrow> server \<Rightarrow> slice \<Rightarrow> trace \<Rightarrow> (error + Fattr) \<times> trace" where
  "GetAttrByFh v srv fh tr =
     (case call srv (GetAttrArgs
             \<lparr>Rpcvers = 2, Prog = Nfs3Prog, Vers = Nfs3Vers, Proc = NFSProc3GetAttr,
              Cred = Target_auth v, Verf = AuthNull\<rparr>
             fh) tr of
        (Inl err, tr1) \<Rightarrow> (Inl err, tr1)
      | (Inr res, tr1) \<Rightarrow>
          (case res of
             GetAttrRes a \<Rightarrow> (Inr a, tr1)
           | _ \<Rightarrow> (Inl (xdr_error_of res), tr1)))"

text \<open>\<^verbatim>\<open>func (v *Target) GetAttr(path string) (*Fattr, []byte, error)\<close>\<close>

definition GetAttr ::
  "nat \<Rightarrow> Target \<Rightarrow> server \<Rightarrow> string \<Rightarrow> trace \<Rightarrow> (error + Fattr \<times> slice) option \<times> trace" where
  "GetAttr n v srv path' tr =
     (case Lookup n v srv path' tr of
        (None, tr1) \<Rightarrow> (None, tr1)
      | (Some (Inl err), tr1) \<Rightarrow> (Some (Inl err), tr1)
      | (Some (Inr (_, fh)), tr1) \<Rightarrow>
          (case GetAttrFh v srv fh tr1 of
             (Inl err, tr2) \<Rightarrow> (Some (Inl err), tr2)
           | (Inr fattr, tr2) \<Rightarrow> (Some (Inr (fattr, fh)), tr2)))"

text \<open>\<^verbatim>\<open>func (v *Target) SetAttrByFh(fh []byte, fattr Sattr3) error\<close>\<close>

definition SetAttrByFh ::
  "Target \<Rightarrow> server \<Rightarrow> slice \<Rightarrow> Sattr3 \<Rightarrow> trace \<Rightarrow> (error + unit) \<times> trace" where
  "SetAttrByFh v srv fh fattr tr =
     (case call srv (SetAttr3Args
             \<lparr>Rpcvers = 2, Prog = Nfs3Prog, Vers = Nfs3Vers, Proc = NFSProc3SetAttr,
              Cred = Target_auth v, Verf = AuthNull\<rparr>
             fh fattr \<lparr>Check = False, Guard_Ctime = (0, 0)\<rparr>) tr of
        (Inl err, tr1) \<Rightarrow> (Inl err, tr1)
      | (Inr res, tr1) \<Rightarrow>
          (case res of
             WccRes wccData \<Rightarrow> (Inr (), tr1)
           | _ \<Rightarrow> (Inl (xdr_error_of res), tr1)))"

text \<open>
  \<^verbatim>\<open>func (v *Target) remove(fh []byte, deleteFile string) error\<close> and
  \<^verbatim>\<open>func (v *Target) rmDir(fh []byte, name string) error\<close>: the body after the status is not
  read.
\<close>

definition remove :: "Target \<Rightarrow> server \<Rightarrow> slice \<Rightarrow> string \<Rightarrow> trace \<Rightarrow> (error + unit) \<times> trace" where
  "remove v srv fh deleteFile tr =
     (case call srv (RemoveArgs
             \<lparr>Rpcvers = 2, Prog = Nfs3Prog, Vers = Nfs3Vers, Proc = NFSProc3Remove,
              Cred = Target_auth v, Verf = AuthNull\<rparr>
             \<lparr>FH = fh, Filename = deleteFile\<rparr>) tr of
        (Inl err, tr1) \<Rightarrow> (Inl err, tr1)
      | (Inr _, tr1) \<Rightarrow> (Inr (), tr1))"

definition rmDir :: "Target \<Rightarrow> server \<Rightarrow> slice \<Rightarrow> string \<Rightarrow> trace \<Rightarrow> (error + unit) \<times> trace" where
  "rmDir v srv fh name tr =
     (case call srv (RmDir3Args
             \<lparr>Rpcvers = 2, Prog = Nfs3Prog, Vers = Nfs3Vers, Proc = NFSProc3RmDir,
              Cred = Target_auth v, Verf = AuthNull\<rparr>
             \<lparr>FH = fh, Filename = name\<rparr>) tr of
        (Inl err, tr1) \<Rightarrow> (Inl err, tr1)
      | (Inr _, tr1) \<Rightarrow> (Inr (), tr1))"

text \<open>\<^verbatim>\<open>func (v *Target) Remove(path string) error\<close>\<close>

definition Remove ::
  "nat \<Rightarrow> Target \<Rightarrow> server \<Rightarrow> string \<Rightarrow> trace \<Rightarrow> (error + unit) option \<times> trace" where
  "Remove n v srv path' tr =
     (case path_Split path' of (parentDir, deleteFile) \<Rightarrow>
        (case Lookup n v srv parentDir tr of
           (None, tr1) \<Rightarrow> (None, tr1)
         | (Some (Inl err), tr1) \<Rightarrow> (Some (Inl err), tr1)
         | (Some (Inr (_, fh)), tr1) \<Rightarrow>
             (case remove v srv fh deleteFile tr1 of (r, tr2) \<Rightarrow> (Some r, tr2))))"

text \<open>\<^verbatim>\<open>func (v *Target) RmDir(path string) error\<close>\<close>

definition RmDir ::
  "nat \<Rightarrow> Target \<Rightarrow> server \<Rightarrow> string \<Rightarrow> trace \<Rightarrow> (error + unit) option \<times> trace" where
  "RmDir n v srv path' tr =
     (case path_Split path' of (dir, deletedir) \<Rightarrow>
        (case Lookup n v srv dir tr of
           (None, tr1) \<Rightarrow> (None, tr1)
         | (Some (Inl err), tr1) \<Rightarrow> (Some (Inl err), tr1)
         | (Some (Inr (_, fh)), tr1) \<Rightarrow>
             (case rmDir v srv fh deletedir tr1 of (r, tr2) \<Rightarrow> (Some r, tr2))))"

text \<open>
  \<^verbatim>\<open>func (v *Target) RenameByFh(fromFh []byte, fromName string, toFh []byte, toName string) error\<close>
\<close>

definition RenameByFh ::
  "Target \<Rightarrow> server \<Rightarrow> slice \<Rightarrow> string \<Rightarrow> slice \<Rightarrow> string \<Rightarrow> trace \<Rightarrow> (error + unit) \<times> trace" where
  "RenameByFh v srv fromFh fromName toFh toName tr =
     (case call srv (Rename3Args
             \<lparr>Rpcvers = 2, Prog = Nfs3Prog, Vers = Nfs3Vers, Proc = NFSProc3Rename,
              Cred = Target_auth v, Verf = AuthNull\<rparr>
             \<lparr>FH = fromFh, Filename = fromName\<rparr>
             \<lparr>FH = toFh, Filename = toName\<rparr>) tr of
        (Inl err, tr1) \<Rightarrow> (Inl err, tr1)
      | (Inr res, tr1) \<Rightarrow>
          (case res of
             RenameRes fromwcc towcc \<Rightarrow> (Inr (), tr1)
           | _ \<Rightarrow> (Inl (xdr_error_of res), tr1)))"

text \<open>
  \<^verbatim>\<open>func (v *Target) Rename(fromPath string, toPath string) error\<close>: the two root checks
  are \<^verbatim>\<open>fromFh == nil\<close> and \<^verbatim>\<open>toFh == nil\<close>, on the parent handles lookupInner returns.
\<close>

definition Rename ::
  "nat \<Rightarrow> Target \<Rightarrow> server \<Rightarrow> string \<Rightarrow> string \<Rightarrow> trace \<Rightarrow> (error + unit) option \<times> trace" where
  "Rename n v srv fromPath toPath tr =
     (case lookupInner n v srv (Target_fh v) fromPath True None tr of
        (None, tr1) \<Rightarrow> (None, tr1)
      | (Some (Inl err), tr1) \<Rightarrow> (Some (Inl err), tr1)
      | (Some (Inr (_, _, fromName, fromFh)), tr1) \<Rightarrow>
          if fromFh = None then (Some (Inl (Errorf ''fromName cannot be a root directory'')), tr1)
          else
            (case lookupInner n v srv (Target_fh v) toPath False None tr1 of
               (None, tr2) \<Rightarrow> (None, tr2)
             | (Some (Inl err), tr2) \<Rightarrow> (Some (Inl err), tr2)
             | (Some (Inr (_, _, toName, toFh)), tr2) \<Rightarrow>
                 if toFh = None then (Some (Inl (Errorf ''toName cannot be a root directory'')), tr2)
                 else
                   (case RenameByFh v srv fromFh fromName toFh toName tr2 of
                      (r, tr3) \<Rightarrow> (Some r, tr3))))"

text \<open>\<^verbatim>\<open>func (v *Target) Readlink(path string) (string, error)\<close>\<close>

definition Readlink ::
  "nat \<Rightarrow> Target \<Rightarrow> server \<Rightarrow> string \<Rightarrow> trace \<Rightarrow> (error + string) option \<times> trace" where
  "Readlink n v srv path' tr =
     (case Lookup n v srv path' tr of
        (None, tr1) \<Rightarrow> (None, tr1)
      | (Some (Inl err), tr1) \<Rightarrow> (Some (Inl err), tr1)
      | (Some (Inr (_, fh)), tr1) \<Rightarrow>
          (case readlinkFh v srv fh tr1 of
             (Inl err, tr2) \<Rightarrow> (Some (Inl err), tr2)
           | (Inr (_, target), tr2) \<Rightarrow> (Some (Inr target), tr2)))"

section \<open>The recursive remover\<close>

text \<open>
  \<^verbatim>\<open>func (v *Target) removeAll(deleteDirfh []byte) error\<close>, here \<open>removeAll_fh\<close> (the
  list library has a \<open>removeAll\<close>): the directory is listed, then the loop over
  \<^verbatim>\<open>entries\<close> is \<open>removeAll_entries\<close>. The recursion follows handles the
  server sends and need not end, so \<open>removeAll_fh\<close> takes one unit of fuel for itself and gives
  the rest to the listing and to the entries; \<open>None\<close> is "no fuel left".
\<close>

fun removeAll_fh ::
  "nat \<Rightarrow> Target \<Rightarrow> server \<Rightarrow> slice \<Rightarrow> trace \<Rightarrow> (error + unit) option \<times> trace"
and removeAll_entries ::
  "nat \<Rightarrow> Target \<Rightarrow> server \<Rightarrow> slice \<Rightarrow> EntryPlus list \<Rightarrow> trace \<Rightarrow> (error + unit) option \<times> trace"
where
  "removeAll_fh 0 v srv deleteDirfh tr = (None, tr)"
| "removeAll_fh (Suc n) v srv deleteDirfh tr =
     (case ReadDirPlusByFh n v srv deleteDirfh tr of
        (None, tr1) \<Rightarrow> (None, tr1)
      | (Some (Inl err), tr1) \<Rightarrow> (Some (Inl err), tr1)
      | (Some (Inr entries), tr1) \<Rightarrow> removeAll_entries n v srv deleteDirfh entries tr1)"
| "removeAll_entries n v srv deleteDirfh [] tr = (Some (Inr ()), tr)"
| "removeAll_entries n v srv deleteDirfh (entry # entries) tr =
     (if FileName entry = ''.'' \<or> FileName entry = ''..'' then
        removeAll_entries n v srv deleteDirfh entries tr
      else if Type (Attr (EntryPlus_Attr entry)) = NF3Dir then
        (if FH_IsSet (Handle entry) then
           (case removeAll_fh n v srv (FH_FH (Handle entry)) tr of
              (None, tr1) \<Rightarrow> (None, tr1)
            | (Some (Inl err), tr1) \<Rightarrow> (Some (Inl err), tr1)
            | (Some (Inr _), tr1) \<Rightarrow>
                (case rmDir v srv deleteDirfh (FileName entry) tr1 of
                   (Inl err, tr2) \<Rightarrow> (Some (Inl err), tr2)
                 | (Inr _, tr2) \<Rightarrow> removeAll_entries n v srv deleteDirfh entries tr2))
         else
           (case rmDir v srv deleteDirfh (FileName entry) tr of
              (Inl err, tr2) \<Rightarrow> (Some (Inl err), tr2)
            | (Inr _, tr2) \<Rightarrow> removeAll_entries n v srv deleteDirfh entries tr2))
      else
        (case remove v srv deleteDirfh (FileName entry) tr of
           (Inl err, tr2) \<Rightarrow> (Some (Inl err), tr2)
         | (Inr _, tr2) \<Rightarrow> removeAll_entries n v srv deleteDirfh entries tr2))"

text \<open>\<^verbatim>\<open>func (v *Target) RemoveAll(path string) error\<close>\<close>

definition RemoveAll ::
  "nat \<Rightarrow> Target \<Rightarrow> server \<Rightarrow> string \<Rightarrow> trace \<Rightarrow> (error + unit) option \<times> trace" where
  "RemoveAll n v srv path' tr =
     (case lookupInner n v srv (Target_fh v) path' False None tr of
        (None, tr1) \<Rightarrow> (None, tr1)
      | (Some (Inl err), tr1) \<Rightarrow> (Some (Inl err), tr1)
      | (Some (Inr (_, _, deleteDir, parentDirfh)), tr1) \<Rightarrow>
          (case rmDir v srv parentDirfh deleteDir tr1 of
             (Inr _, tr2) \<Rightarrow> (Some (Inr ()), tr2)
           | (Inl err, tr2) \<Rightarrow>
               if os_IsNotExist err then (Some (Inr ()), tr2)
               else if IsNotDirError err then (Some (Inl err), tr2)
               else
                 (case lookupInner n v srv parentDirfh deleteDir True None tr2 of
                    (None, tr3) \<Rightarrow> (None, tr3)
                  | (Some (Inl err'), tr3) \<Rightarrow> (Some (Inl err'), tr3)
                  | (Some (Inr (_, deleteDirfh, _, _)), tr3) \<Rightarrow>
                      (case removeAll_fh n v srv deleteDirfh tr3 of
                         (None, tr4) \<Rightarrow> (None, tr4)
                       | (Some (Inl err'), tr4) \<Rightarrow> (Some (Inl err'), tr4)
                       | (Some (Inr _), tr4) \<Rightarrow>
                           (case rmDir v srv parentDirfh deleteDir tr4 of
                              (Inl err', tr5) \<Rightarrow> (Some (Inl err'), tr5)
                            | (Inr _, tr5) \<Rightarrow> (Some (Inr ()), tr5))))))"

section \<open>Descriptions used in the statements\<close>

text \<open>
  The header every envelope is claimed to send, as a predicate on a request: \<open>header_of\<close> is
  the embedded header of an argument struct and \<open>proc_of\<close> the procedure the struct belongs to.
\<close>

fun header_of :: "rpc_call \<Rightarrow> Header" where
  "header_of (FSInfoArgs h fh) = h"
| "header_of (Lookup3Args h what) = h"
| "header_of (Access3Args h fh m) = h"
| "header_of (ReadDirPlus3Args h fh c cv dc mc) = h"
| "header_of (MkdirArgs h wh a) = h"
| "header_of (Create3Args h wh hw) = h"
| "header_of (GetAttrArgs h fh) = h"
| "header_of (RemoveArgs h ob) = h"
| "header_of (RmDir3Args h ob) = h"
| "header_of (SetAttr3Args h fh a g) = h"
| "header_of (Rename3Args h fr to) = h"
| "header_of (Readlink3Arg h fh) = h"

fun proc_of :: "rpc_call \<Rightarrow> nfsproc" where
  "proc_of (FSInfoArgs h fh) = NFSProc3FSInfo"
| "proc_of (Lookup3Args h what) = NFSProc3Lookup"
| "proc_of (Access3Args h fh m) = NFSProc3Access"
| "proc_of (ReadDirPlus3Args h fh c cv dc mc) = NFSProc3ReadDirPlus"
| "proc_of (MkdirArgs h wh a) = NFSProc3Mkdir"
| "proc_of (Create3Args h wh hw) = NFSProc3Create"
| "proc_of (GetAttrArgs h fh) = NFSProc3GetAttr"
| "proc_of (RemoveArgs h ob) = NFSProc3Remove"
| "proc_of (RmDir3Args h ob) = NFSProc3RmDir"
| "proc_of (SetAttr3Args h fh a g) = NFSProc3SetAttr"
| "proc_of (Rename3Args h fr to) = NFSProc3Rename"
| "proc_of (Readlink3Arg h fh) = NFSProc3Readlink"

definition standard_header :: "Target \<Rightarrow> rpc_call \<Rightarrow> bool" where
  "standard_header v c =
     (header_of c = \<lparr>Rpcvers = 2, Prog = 100003, Vers = 3, Proc = proc_of c,
                     Cred = Target_auth v, Verf = AuthNull\<rparr>)"

text \<open>\<open>emits v tr tr'\<close>: the history \<open>tr'\<close> is \<open>tr\<close> and then requests with the standard header only.\<close>

definition emits :: "Target \<Rightarrow> trace \<Rightarrow> trace \<Rightarrow> bool" where
  "emits v tr tr' = (\<exists>new. tr' = tr @ new \<and> list_all (standard_header v) new)"

text \<open>
  The pagination of the directory pager as the spec words it. A page is the preamble's
  directory attributes and cookie verifier and the entries of the list. \<open>next_cookie\<close> is the
  cookie of the last entry decoded so far. \<open>pages_served\<close> says that the server answers the
  scan that starts at \<open>(cookie, verf)\<close> with exactly these pages, \<^verbatim>\<open>eof = false\<close> on each but the
  last; \<open>page_requests\<close> are the requests the spec expects for them.
\<close>

type_synonym page = "Fattr option \<times> 64 word \<times> wire_entry list"

definition readdirplus_request :: "Target \<Rightarrow> slice \<Rightarrow> 64 word \<Rightarrow> 64 word \<Rightarrow> rpc_call" where
  "readdirplus_request v fh cookie verf =
     ReadDirPlus3Args
       \<lparr>Rpcvers = 2, Prog = Nfs3Prog, Vers = Nfs3Vers, Proc = NFSProc3ReadDirPlus,
        Cred = Target_auth v, Verf = AuthNull\<rparr>
       fh cookie verf 512 4096"

definition is_readdirplus_request :: "Target \<Rightarrow> slice \<Rightarrow> rpc_call \<Rightarrow> bool" where
  "is_readdirplus_request v fh c = (\<exists>cookie verf. c = readdirplus_request v fh cookie verf)"

definition next_cookie :: "64 word \<Rightarrow> wire_entry list \<Rightarrow> 64 word" where
  "next_cookie cookie ws = (if ws = [] then cookie else fst (snd (snd (last ws))))"

fun pages_served ::
  "server \<Rightarrow> Target \<Rightarrow> slice \<Rightarrow> 64 word \<Rightarrow> 64 word \<Rightarrow> page list \<Rightarrow> trace \<Rightarrow> bool" where
  "pages_served srv v fh cookie verf [] tr = False"
| "pages_served srv v fh cookie verf [(da, pverf, ws)] tr =
     (srv tr (readdirplus_request v fh cookie verf) =
        Reply NFS3Ok (ReadDirPlusRes da pverf ws (Inr True)))"
| "pages_served srv v fh cookie verf ((da, pverf, ws) # pg # pgs) tr =
     (srv tr (readdirplus_request v fh cookie verf) =
        Reply NFS3Ok (ReadDirPlusRes da pverf ws (Inr False))
      \<and> pages_served srv v fh (next_cookie cookie ws) pverf (pg # pgs)
          (tr @ [readdirplus_request v fh cookie verf]))"

fun page_requests :: "Target \<Rightarrow> slice \<Rightarrow> 64 word \<Rightarrow> 64 word \<Rightarrow> page list \<Rightarrow> rpc_call list" where
  "page_requests v fh cookie verf [] = []"
| "page_requests v fh cookie verf ((da, pverf, ws) # pgs) =
     readdirplus_request v fh cookie verf # page_requests v fh (next_cookie cookie ws) pverf pgs"

definition page_entries :: "page list \<Rightarrow> EntryPlus list" where
  "page_entries pgs = map decode_EntryPlus (concat (map (\<lambda>(da, pverf, ws). ws) pgs))"




section \<open>An example export\<close>

text \<open>
  A Target mounted on the handle \<open>[0]\<close> and a small export to run the operations on. Under the
  root: \<open>s\<close>, a symlink to itself; \<open>a\<close> and \<open>b\<close>, symlinks to each other; \<open>l\<close>, a symlink to
  the regular file \<open>f\<close>; the directory \<open>d\<close>, listed in two pages, with a subdirectory \<open>sub\<close>
  whose entry carries no handle and a file \<open>x\<close>. \<open>example_fs\<close> answers from the request alone;
  \<open>example_server\<close> also refuses to remove \<open>d\<close> (NOTEMPTY) until \<open>x\<close> has been removed.
\<close>

definition example_target :: Target where
  "example_target = \<lparr>Target_auth = \<lparr>Flavor = 1, Body = [7]\<rparr>, Target_fh = Some [0],
     Target_dirPath = ''/export'', Target_fsinfo = None\<rparr>"

definition symlink_attr :: Fattr where
  "symlink_attr = Fattr_zero\<lparr>Type := 5, FileMode := 41471, Nlink := 1, Fileid := 11\<rparr>"

definition file_attr :: Fattr where
  "file_attr = Fattr_zero\<lparr>Type := 1, FileMode := 33188, Nlink := 1, Filesize := 3, Fileid := 12\<rparr>"

definition dir_attr :: Fattr where
  "dir_attr = Fattr_zero\<lparr>Type := 2, FileMode := 16877, Nlink := 2, Fileid := 13\<rparr>"

definition no_wcc :: WccData where
  "no_wcc = \<lparr>Before = None, After = None\<rparr>"

definition refused :: "nfsstat3 \<Rightarrow> rpc_reply" where
  "refused status = Reply status (Undecodable (XdrError ''no body''))"

fun example_fs :: "rpc_call \<Rightarrow> rpc_reply" where
  "example_fs (Lookup3Args h what) =
     (if FH what \<noteq> Some [0] then refused NFS3ErrNotDir
      else if Filename what = ''s'' then Reply NFS3Ok (LookupRes [1] (Some symlink_attr) None)
      else if Filename what = ''a'' then Reply NFS3Ok (LookupRes [2] (Some symlink_attr) None)
      else if Filename what = ''b'' then Reply NFS3Ok (LookupRes [3] (Some symlink_attr) None)
      else if Filename what = ''l'' then Reply NFS3Ok (LookupRes [4] (Some symlink_attr) None)
      else if Filename what = ''f'' then Reply NFS3Ok (LookupRes [5] (Some file_attr) None)
      else if Filename what = ''d'' then Reply NFS3Ok (LookupRes [6] (Some dir_attr) None)
      else refused NFS3ErrNoEnt)"
| "example_fs (Readlink3Arg h fh) =
     (if fh = Some [1] then Reply NFS3Ok (ReadlinkRes None ''s'')
      else if fh = Some [2] then Reply NFS3Ok (ReadlinkRes None ''b'')
      else if fh = Some [3] then Reply NFS3Ok (ReadlinkRes None ''a'')
      else if fh = Some [4] then Reply NFS3Ok (ReadlinkRes None ''f'')
      else refused NFS3ErrInval)"
| "example_fs (GetAttrArgs h fh) =
     (if fh = Some [0] then Reply NFS3Ok (GetAttrRes dir_attr)
      else if fh = Some [5] then Reply NFS3Ok (GetAttrRes file_attr)
      else if fh = Some [6] then Reply NFS3Ok (GetAttrRes dir_attr)
      else refused NFS3ErrStale)"
| "example_fs (ReadDirPlus3Args h fh cookie verf dc mc) =
     (if fh \<noteq> Some [6] then refused NFS3ErrNotDir
      else if cookie = 0 then
        Reply NFS3Ok (ReadDirPlusRes (Some dir_attr) 9
          [(13, ''.'', 1, Some dir_attr, Some [6]), (14, ''..'', 2, Some dir_attr, Some [0])]
          (Inr False))
      else if cookie = 2 \<and> verf = 9 then
        Reply NFS3Ok (ReadDirPlusRes (Some dir_attr) 9
          [(15, ''sub'', 3, Some dir_attr, None), (16, ''x'', 4, Some file_attr, Some [8])]
          (Inr True))
      else refused NFS3ErrBadCookie)"
| "example_fs (RmDir3Args h ob) = Reply NFS3Ok (WccRes no_wcc)"
| "example_fs (RemoveArgs h ob) = Reply NFS3Ok (WccRes no_wcc)"
| "example_fs (Rename3Args h fr to) = Reply NFS3Ok (RenameRes no_wcc no_wcc)"
| "example_fs (MkdirArgs h wh a) = Reply NFS3Ok (CreateRes None None no_wcc)"
| "example_fs (Create3Args h wh hw) = Reply NFS3Ok (CreateRes None None no_wcc)"
| "example_fs (FSInfoArgs h fh) = refused NFS3ErrNotSupp"
| "example_fs (Access3Args h fh m) = Reply NFS3Ok (AccessRes None m)"
| "example_fs (SetAttr3Args h fh a g) = Reply NFS3Ok (WccRes no_wcc)"

fun is_RemoveArgs :: "rpc_call \<Rightarrow> bool" where
  "is_RemoveArgs (RemoveArgs h ob) = True"
| "is_RemoveArgs _ = False"

definition example_server :: server where
  "example_server tr c =
     (case c of
        RmDir3Args h ob \<Rightarrow>
          if FH ob = Some [0] \<and> Filename ob = ''d'' \<and> \<not> list_ex is_RemoveArgs tr
          then refused NFS3ErrNotEmpty
          else example_fs c
      | _ \<Rightarrow> example_fs c)"

text \<open>The LOOKUP, READLINK and RENAME requests of \<open>example_target\<close>.\<close>

definition lookup_request :: "slice \<Rightarrow> string \<Rightarrow> rpc_call" where
  "lookup_request fh name = Lookup3Args
     \<lparr>Rpcvers = 2, Prog = Nfs3Prog, Vers = Nfs3Vers, Proc = NFSProc3Lookup,
      Cred = \<lparr>Flavor = 1, Body = [7]\<rparr>, Verf = AuthNull\<rparr> \<lparr>FH = fh, Filename = name\<rparr>"

definition readlink_request :: "slice \<Rightarrow> rpc_call" where
  "readlink_request fh = Readlink3Arg
     \<lparr>Rpcvers = 2, Prog = Nfs3Prog, Vers = Nfs3Vers, Proc = NFSProc3Readlink,
      Cred = \<lparr>Flavor = 1, Body = [7]\<rparr>, Verf = AuthNull\<rparr> fh"

definition rename_request :: "slice \<Rightarrow> string \<Rightarrow> slice \<Rightarrow> string \<Rightarrow> rpc_call" where
  "rename_request fromFh fromName toFh toName = Rename3Args
     \<lparr>Rpcvers = 2, Prog = Nfs3Prog, Vers = Nfs3Vers, Proc = NFSProc3Rename,
      Cred = \<lparr>Flavor = 1, Body = [7]\<rparr>, Verf = AuthNull\<rparr>
     \<lparr>FH = fromFh, Filename = fromName\<rparr> \<lparr>FH = toFh, Filename = toName\<rparr>"

text \<open>The two pages in which \<open>example_fs\<close> lists the directory \<open>d\<close>.\<close>

definition example_page1 :: page where
  "example_page1 = (Some dir_attr, 9,
     [(13, ''.'', 1, Some dir_attr, Some [6]), (14, ''..'', 2, Some dir_attr, Some [0])])"

definition example_page2 :: page where
  "example_page2 = (Some dir_attr, 9,
     [(15, ''sub'', 3, Some dir_attr, None), (16, ''x'', 4, Some file_attr, Some [8])])"



section \<open>Properties\<close>

lemma sameHandle_loop_iff:
  "i + length a \<le> length b \<Longrightarrow> sameHandle_loop i a b \<longleftrightarrow> a = take (length a) (drop i b)"
proof (induction a arbitrary: i)
  case Nil
  then show ?case by simp
next
  case (Cons av as)
  from Cons.prems have lt: "i < length b" and le: "Suc i + length as \<le> length b" by simp_all
  have dr: "drop i b = b ! i # drop (Suc i) b"
    using lt by (simp add: Cons_nth_drop_Suc)
  show ?case
    using Cons.IH [OF le] by (auto simp: dr)
qed

lemma sameHandle_eq: "sameHandle a b \<longleftrightarrow> a = b"
proof (cases "length a = length b")
  case True
  then show ?thesis
    using sameHandle_loop_iff [of 0 a b] by (simp add: sameHandle_def)
next
  case False
  then show ?thesis by (auto simp: sameHandle_def)
qed

text \<open>
  C8: sameHandle is reflexive, symmetric and transitive, and it holds exactly when the two
  byte strings have the same length and the same byte at every index.
\<close>

theorem sameHandle_equivalence:
  "sameHandle a a
   \<and> (sameHandle a b \<longleftrightarrow> sameHandle b a)
   \<and> (sameHandle a b \<and> sameHandle b c \<longrightarrow> sameHandle a c)
   \<and> (sameHandle a b \<longleftrightarrow> length a = length b \<and> (\<forall>i < length a. a ! i = b ! i))"
  by (auto simp: sameHandle_eq list_eq_iff_nth_eq)

theorem sameHandle_equivalence_witness:
  "sameHandle [1, 2] [1, 2] \<and> \<not> sameHandle [1, 2] [1, 3] \<and> \<not> sameHandle [1, 2] [1]
   \<and> \<not> sameHandle [] [0] \<and> sameHandle [] []"
  using sameHandle_equivalence [of "[1, 2]" "[1, 2]" "[1, 2]"]
        sameHandle_equivalence [of "[1, 2]" "[1, 3]" "[1, 3]"]
        sameHandle_equivalence [of "[1, 2]" "[1]" "[1]"]
        sameHandle_equivalence [of "[]" "[0]" "[]"]
  by (auto simp: nth_Cons')

subsection \<open>The path resolver's loop\<close>



lemma call_trace: "snd (call srv c tr) = tr @ [c]"
  by (simp add: call_def split: rpc_reply.splits option.splits)

lemma call_snd: "call srv c tr = (r, tr') \<Longrightarrow> tr' = tr @ [c]"
  using call_trace [of srv c tr] by simp

lemma lookupInner_loop_Nil [simp]:
  "lookupInner_loop n v srv ll org [] st tr = (Some (Inr st), tr)"
  by (cases st) simp

text \<open>
  A component that is not the last one, or any component when the last one is looked up, is
  visited the same way whatever follows it.
\<close>

lemma lookupInner_loop_head:
  "rest \<noteq> [] \<or> ll \<Longrightarrow>
   lookupInner_loop n v srv ll org (d # rest) st tr =
     (case lookupInner_loop n v srv True org [d] st tr of
        (Some (Inr st'), tr') \<Rightarrow> lookupInner_loop n v srv ll org rest st' tr'
      | r \<Rightarrow> r)"
  by (cases st) (auto split: prod.splits sum.splits option.splits nat.splits)

lemma lookupInner_loop_append:
  "es \<noteq> [] \<or> ll \<Longrightarrow>
   lookupInner_loop n v srv ll org (ds @ es) st tr =
     (case lookupInner_loop n v srv True org ds st tr of
        (Some (Inr st'), tr') \<Rightarrow> lookupInner_loop n v srv ll org es st' tr'
      | r \<Rightarrow> r)"
proof (induction ds arbitrary: st tr)
  case Nil
  then show ?case by simp
next
  case (Cons d ds)
  have a: "ds @ es \<noteq> [] \<or> ll" using Cons.prems by auto
  show ?case
    by (simp add: lookupInner_loop_head [OF a] lookupInner_loop_head [of ds True]
          Cons.IH [OF Cons.prems] del: lookupInner_loop.simps(2)
          split: prod.splits sum.splits option.splits)
qed

subsection \<open>Trailing slashes and the empty path\<close>

lemmas example_defs = example_target_def example_server_def refused_def
  lookup_def readlinkFh_def call_def NFS3Error_def decode_PostOpAttr_def decode_PostOpFH3_def
  is_symlink_def symlink_attr_def file_attr_def dir_attr_def Fattr_zero_def bytes_def
  sameHandle_def xdr_error_of_def lookupInner_def Lookup_def




subsection \<open>Errors of a followed symlink\<close>

text \<open>
  C9: when the last component \<open>d\<close> of the path is a symlink and the resolution of its target
  from the root, with the symlink's handle as origin, returns an error, lookupInner drops the
  error: Lookup returns no error, a nil handle and the symlink's own attributes.
\<close>

theorem Lookup_discards_symlink_error:
  assumes "strings_Split p = ds @ [d]" and "d \<noteq> ''.''" and "d \<noteq> ''''"
    and "lookupInner_loop (Suc n) v srv True None ds (None, Target_fh v, '''', None) tr
           = (Some (Inr (fa, dirfh, dn, pf)), tr1)"
    and "lookup v srv dirfh d tr1 = (Inr (fattr, linkfh, da), tr2)"
    and "is_symlink fattr"
    and "readlinkFh v srv linkfh tr2 = (Inr (la, target), tr3)"
    and "lookupInner n v srv (Target_fh v) target True linkfh tr3 = (Some (Inl err), tr4)"
  shows "lookupInner (Suc n) v srv (Target_fh v) p True None tr
           = (Some (Inr (Some fattr, None, d, dirfh)), tr4)
         \<and> Lookup (Suc n) v srv p tr = (Some (Inr (Some fattr, None)), tr4)"
  using assms
  by (simp add: Lookup_def lookupInner_def lookupInner_loop_append)

theorem Lookup_discards_symlink_error_witness:
  "lookupInner 0 example_target example_server (Target_fh example_target) ''s'' True (Some [1])
       [lookup_request (Some [0]) ''s'', readlink_request (Some [1])]
     = (Some (Inl (Errorf ''recursed symlink'')),
         [lookup_request (Some [0]) ''s'', readlink_request (Some [1]),
          lookup_request (Some [0]) ''s''])
   \<and> Lookup (Suc 0) example_target example_server ''s'' []
     = (Some (Inr (Some symlink_attr, None)),
         [lookup_request (Some [0]) ''s'', readlink_request (Some [1]),
          lookup_request (Some [0]) ''s''])"
proof -
  let ?tr2 = "[lookup_request (Some [0]) ''s'']"
  let ?tr3 = "[lookup_request (Some [0]) ''s'', readlink_request (Some [1])]"
  let ?tr4 = "[lookup_request (Some [0]) ''s'', readlink_request (Some [1]),
               lookup_request (Some [0]) ''s'']"
  have 1: "strings_Split ''s'' = [] @ [''s'']" by simp
  have 2: "''s'' \<noteq> ''.''" and 3: "''s'' \<noteq> ''''" by simp_all
  have 4: "lookupInner_loop (Suc 0) example_target example_server True None []
             (None, Target_fh example_target, '''', None) []
           = (Some (Inr (None, Target_fh example_target, '''', None)), [])" by simp
  have 5: "lookup example_target example_server (Target_fh example_target) ''s'' []
           = (Inr (symlink_attr, Some [1], Fattr_zero), ?tr2)"
    by (simp add: example_defs lookup_request_def)
  have 6: "is_symlink symlink_attr" by (simp add: example_defs)
  have 7: "readlinkFh example_target example_server (Some [1]) ?tr2
           = (Inr (Fattr_zero, ''s''), ?tr3)"
    by (simp add: example_defs lookup_request_def readlink_request_def)
  have 8: "lookupInner 0 example_target example_server (Target_fh example_target) ''s'' True
             (Some [1]) ?tr3
           = (Some (Inl (Errorf ''recursed symlink'')), ?tr4)"
    by (simp add: example_defs lookup_request_def readlink_request_def)
  show ?thesis
    using Lookup_discards_symlink_error [OF 1 2 3 4 5 6 7 8] 8 by simp
qed

subsection \<open>Symlink cycles\<close>

lemma example_target_sel:
  "Target_fh example_target = Some [0]"
  "Target_auth example_target = \<lparr>Flavor = 1, Body = [7]\<rparr>"
  by (simp_all add: example_target_def)

lemma example_server_lookup:
  "example_server tr (Lookup3Args h w) = example_fs (Lookup3Args h w)"
  "example_server tr (Readlink3Arg h fh) = example_fs (Readlink3Arg h fh)"
  by (simp_all add: example_server_def)

lemmas example_unfold = refused_def lookup_def readlinkFh_def call_def NFS3Error_def
  decode_PostOpAttr_def is_symlink_def symlink_attr_def Fattr_zero_def bytes_def
  sameHandle_def example_target_sel example_server_lookup

text \<open>
  The symlinks \<open>a\<close> and \<open>b\<close> point at each other. The origin of each nested resolution is the
  handle of the other link only, so the test against the origin never fires and every
  amount of fuel is used up.
\<close>

lemma two_cycle_steps:
  "fst (lookupInner_loop n example_target example_server True (Some [3]) [''a'']
          (x, Some [0], y, z) tr) = None
   \<and> fst (lookupInner_loop n example_target example_server True (Some [2]) [''b'']
          (x, Some [0], y, z) tr) = None"
proof (induction n arbitrary: x y z tr)
  case 0
  show ?case by (simp add: example_unfold)
next
  case (Suc n)
  have IH: "\<forall>x y z tr.
      fst (lookupInner_loop n example_target example_server True (Some [3]) [''a'']
             (x, Some [0], y, z) tr) = None
    \<and> fst (lookupInner_loop n example_target example_server True (Some [2]) [''b'']
             (x, Some [0], y, z) tr) = None"
    using Suc.IH by blast
  have a: "fst (lookupInner_loop (Suc n) example_target example_server True (Some [3]) [''a'']
             (x, Some [0], y, z) tr) = None"
    apply (subst lookupInner_loop.simps(2))
    using IH
    apply (auto simp add: example_unfold simp del: lookupInner_loop.simps(2)
            split: prod.splits option.splits sum.splits)
     apply (metis fst_conv option.distinct(1))+
    done
  have b: "fst (lookupInner_loop (Suc n) example_target example_server True (Some [2]) [''b'']
             (x, Some [0], y, z) tr) = None"
    apply (subst lookupInner_loop.simps(2))
    using IH
    apply (auto simp add: example_unfold simp del: lookupInner_loop.simps(2)
            split: prod.splits option.splits sum.splits)
     apply (metis fst_conv option.distinct(1))+
    done
  show ?case using a b by simp
qed

lemma two_cycle_top:
  "fst (Lookup n example_target example_server ''a'' tr) = None"
proof (cases n)
  case 0
  then show ?thesis by (simp add: Lookup_def lookupInner_def example_unfold)
next
  case (Suc m)
  have b: "\<forall>x y z tr.
      fst (lookupInner_loop m example_target example_server True (Some [2]) [''b'']
             (x, Some [0], y, z) tr) = None"
    using two_cycle_steps by blast
  show ?thesis
    unfolding Suc Lookup_def lookupInner_def
    apply (simp del: lookupInner_loop.simps(2))
    apply (subst lookupInner_loop.simps(2))
    using b
    apply (auto simp add: example_unfold simp del: lookupInner_loop.simps(2)
            split: prod.splits option.splits sum.splits)
     apply (metis fst_conv option.distinct(1))+
    done
qed

text \<open>
  C1 on the code. The symlink \<open>s\<close> points at itself: the nested resolution does report
  "recursed symlink", but its caller drops the error, and Lookup returns no error, with a
  nil handle, after LOOKUP, READLINK, LOOKUP. The symlinks \<open>a\<close> and \<open>b\<close> point at each
  other: Lookup does not return, whatever the fuel.
\<close>

theorem Lookup_symlink_cycles:
  "Lookup 1 example_target example_server ''s'' []
     = (Some (Inr (Some symlink_attr, None)),
         [lookup_request (Some [0]) ''s'', readlink_request (Some [1]),
          lookup_request (Some [0]) ''s''])
   \<and> (\<forall>n. fst (Lookup n example_target example_server ''a'' []) = None)"
  by (simp add: two_cycle_top) (simp add: example_defs lookup_request_def readlink_request_def)

subsection \<open>Rename of the mount root\<close>

lemma Rename_root_general:
  "Target_fh v \<noteq> None \<Longrightarrow>
   Rename n v srv ''/'' ''/x'' tr =
     (case RenameByFh v srv (Target_fh v) '''' (Target_fh v) ''x'' tr of
        (r, tr') \<Rightarrow> (Some r, tr'))"
  by (auto simp: Rename_def lookupInner_def)

text \<open>
  C2 on the code. For the path "/" lookupInner returns the root handle as parent handle, not
  nil, so neither root check of Rename fires when the Target has a root handle: the call
  goes on to RenameByFh with the empty name.
\<close>

theorem Rename_root_sends_rename:
  "Rename n example_target example_server ''/'' ''/x'' []
     = (Some (Inr ()), [rename_request (Some [0]) '''' (Some [0]) ''x''])"
  by (simp add: Rename_def RenameByFh_def rename_request_def example_defs)

subsection \<open>CREATE and MKDIR replies without a handle\<close>

text \<open>
  C10: MkdirByParentFh and CreateByFh send one request; when the server answers it with
  status 0 and a body whose optional handle is absent, they return a nil handle and no error.
\<close>

theorem absent_handle_returns_nil:
  "(\<exists>c. snd (MkdirByParentFh v srv fh name perm tr) = tr @ [c] \<and> proc_of c = NFSProc3Mkdir
        \<and> (\<forall>a wcc. srv tr c = Reply NFS3Ok (CreateRes None a wcc) \<longrightarrow>
               fst (MkdirByParentFh v srv fh name perm tr) = Inr None))
   \<and> (\<exists>c. snd (CreateByFh v srv fh name perm tr) = tr @ [c] \<and> proc_of c = NFSProc3Create
        \<and> (\<forall>a wcc. srv tr c = Reply NFS3Ok (CreateRes None a wcc) \<longrightarrow>
               fst (CreateByFh v srv fh name perm tr) = Inr None))"
  by (auto simp: MkdirByParentFh_def CreateByFh_def call_def NFS3Error_def decode_PostOpFH3_def
        split: rpc_reply.splits resbody.splits)

theorem absent_handle_returns_nil_witness:
  "fst (MkdirByParentFh example_target example_server (Some [0]) ''new'' 493 []) = Inr None
   \<and> fst (CreateByFh example_target example_server (Some [0]) ''new'' 493 []) = Inr None
   \<and> length (snd (MkdirByParentFh example_target example_server (Some [0]) ''new'' 493 [])) = 1"
  using absent_handle_returns_nil [of example_target example_server "Some [0]" "''new''" 493 "[]"]
  by (simp add: MkdirByParentFh_def CreateByFh_def example_defs)

subsection \<open>The directory pager\<close>

lemma Cookie_decode: "Cookie (decode_EntryPlus w) = fst (snd (snd w))"
  by (cases w) (simp add: decode_EntryPlus_def)

lemma read_entries_eq:
  "read_entries ws cookie entries = (next_cookie cookie ws, entries @ map decode_EntryPlus ws)"
  by (induction ws arbitrary: cookie entries) (auto simp: next_cookie_def Cookie_decode)

lemma ReadDirPlus_loop_pages:
  "pages_served srv v fh cookie verf pgs tr \<Longrightarrow> length pgs \<le> n \<Longrightarrow>
   ReadDirPlus_loop n v srv fh cookie verf entries tr
     = (Some (Inr (entries @ page_entries pgs)), tr @ page_requests v fh cookie verf pgs)"
proof (induction srv v fh cookie verf pgs tr arbitrary: n entries rule: pages_served.induct)
  case (1 srv v fh cookie verf tr)
  then show ?case by simp
next
  case (2 srv v fh cookie verf da pverf ws tr)
  then obtain m where n: "n = Suc m" by (cases n) auto
  show ?case
    using 2 unfolding n
    by (simp add: call_def NFS3Error_def read_entries_eq page_entries_def
          readdirplus_request_def)
next
  case (3 srv v fh cookie verf da pverf ws pg pgs tr)
  then obtain m where n: "n = Suc m" by (cases n) auto
  have le: "length (pg # pgs) \<le> m" using 3 n by simp
  have served: "pages_served srv v fh (next_cookie cookie ws) pverf (pg # pgs)
                  (tr @ [readdirplus_request v fh cookie verf])"
    using 3 by simp
  have reply: "srv tr (readdirplus_request v fh cookie verf) =
        Reply NFS3Ok (ReadDirPlusRes da pverf ws (Inr False))"
    using 3 by simp
  show ?case
    unfolding n
    using reply "3.IH" [OF served le, of "entries @ map decode_EntryPlus ws"]
    by (simp add: call_def NFS3Error_def read_entries_eq page_entries_def
          readdirplus_request_def)
qed

lemma ReadDirPlus_loop_requests:
  "\<exists>new. snd (ReadDirPlus_loop n v srv fh cookie verf entries tr) = tr @ new
         \<and> list_all (is_readdirplus_request v fh) new
         \<and> (0 < n \<longrightarrow> new \<noteq> [] \<and> hd new = readdirplus_request v fh cookie verf)"
proof (induction n arbitrary: cookie verf entries tr)
  case 0
  show ?case by simp
next
  case (Suc n)
  let ?c = "readdirplus_request v fh cookie verf"
  obtain r tr1 where c: "call srv ?c tr = (r, tr1)" by force
  have tr1: "tr1 = tr @ [?c]" using call_snd [OF c] .
  have isr: "is_readdirplus_request v fh ?c" by (auto simp: is_readdirplus_request_def)
  have "snd (ReadDirPlus_loop (Suc n) v srv fh cookie verf entries tr) = tr1
        \<or> (\<exists>cookie' verf' entries'.
              snd (ReadDirPlus_loop (Suc n) v srv fh cookie verf entries tr)
                = snd (ReadDirPlus_loop n v srv fh cookie' verf' entries' tr1))"
    using c
    by (auto simp: readdirplus_request_def Let_def
          split: prod.splits sum.splits resbody.splits if_splits)
  then show ?case
  proof
    assume "snd (ReadDirPlus_loop (Suc n) v srv fh cookie verf entries tr) = tr1"
    then show ?thesis using tr1 isr by simp
  next
    assume "\<exists>cookie' verf' entries'.
              snd (ReadDirPlus_loop (Suc n) v srv fh cookie verf entries tr)
                = snd (ReadDirPlus_loop n v srv fh cookie' verf' entries' tr1)"
    then obtain cookie' verf' entries' where
      e: "snd (ReadDirPlus_loop (Suc n) v srv fh cookie verf entries tr)
            = snd (ReadDirPlus_loop n v srv fh cookie' verf' entries' tr1)" by blast
    from Suc.IH [of cookie' verf' entries' tr1] obtain new where
      n: "snd (ReadDirPlus_loop n v srv fh cookie' verf' entries' tr1) = tr1 @ new"
         "list_all (is_readdirplus_request v fh) new" by blast
    have "snd (ReadDirPlus_loop (Suc n) v srv fh cookie verf entries tr) = tr @ (?c # new)"
      using e n tr1 by simp
    moreover have "list_all (is_readdirplus_request v fh) (?c # new)" using n isr by simp
    ultimately show ?thesis by (intro exI [of _ "?c # new"]) simp
  qed
qed

text \<open>
  C5: every request ReadDirPlusByFh sends is a READDIRPLUS for the handle with dircount 512
  and maxcount 4096, and the first has cookie 0 and verifier 0. When the server answers the
  scan with the pages \<open>pgs\<close> (\<^verbatim>\<open>eof = false\<close> on each but the last), ReadDirPlusByFh,
  given fuel for that many pages, returns the entries of all pages in arrival order, and the
  requests it sends are exactly \<open>page_requests\<close>: each later one carries the cookie of the
  last entry decoded so far and the verifier of the page before it.
\<close>

theorem ReadDirPlusByFh_pagination:
  "(pages_served srv v fh 0 0 pgs tr \<and> length pgs \<le> n \<longrightarrow>
      ReadDirPlusByFh n v srv fh tr
        = (Some (Inr (page_entries pgs)), tr @ page_requests v fh 0 0 pgs))
   \<and> (\<exists>new. snd (ReadDirPlusByFh n v srv fh tr) = tr @ new
         \<and> list_all (is_readdirplus_request v fh) new
         \<and> (0 < n \<longrightarrow> new \<noteq> [] \<and> hd new = readdirplus_request v fh 0 0))"
  using ReadDirPlus_loop_pages [of srv v fh 0 0 pgs tr n "[]"]
        ReadDirPlus_loop_requests [of n v srv fh 0 0 "[]" tr]
  by (simp add: ReadDirPlusByFh_def)

theorem ReadDirPlusByFh_pagination_witness:
  "ReadDirPlusByFh 2 example_target example_server (Some [6]) []
     = (Some (Inr (page_entries [example_page1, example_page2])),
        [readdirplus_request example_target (Some [6]) 0 0,
         readdirplus_request example_target (Some [6]) 2 9])"
proof -
  have served: "pages_served example_server example_target (Some [6]) 0 0
                  [example_page1, example_page2] []"
    by (simp add: example_page1_def example_page2_def example_server_def
          readdirplus_request_def next_cookie_def)
  have le: "length [example_page1, example_page2] \<le> 2" by simp
  show ?thesis
    using ReadDirPlusByFh_pagination [of example_server example_target "Some [6]"
            "[example_page1, example_page2]" "[]" 2, THEN conjunct1] served le
    by (simp add: example_page1_def example_page2_def next_cookie_def)
qed

subsection \<open>The header of every request\<close>

lemma emits_refl [simp]: "emits v tr tr"
  by (simp add: emits_def)

lemma emits_trans: "emits v a b \<Longrightarrow> emits v b c \<Longrightarrow> emits v a c"
  by (auto simp: emits_def)

lemma emits_one: "standard_header v c \<Longrightarrow> emits v tr (tr @ [c])"
  by (simp add: emits_def)

lemmas hdr_simps = standard_header_def Nfs3Prog_def Nfs3Vers_def

lemma emits_lookup: "lookup v srv fh name tr = (r, tr1) \<Longrightarrow> emits v tr tr1"
  by (auto simp: lookup_def hdr_simps intro!: emits_one dest!: call_snd
        split: prod.splits sum.splits resbody.splits)

lemma emits_readlinkFh: "readlinkFh v srv fh tr = (r, tr1) \<Longrightarrow> emits v tr tr1"
  by (auto simp: readlinkFh_def hdr_simps intro!: emits_one dest!: call_snd
        split: prod.splits sum.splits resbody.splits)

lemma lookupInner_loop_single:
  "lookupInner_loop n v srv True org [d] (fattr, fh, dirent, prevFh) tr =
     (if d = ''.'' \<or> d = '''' then (Some (Inr (fattr, fh, d, fh)), tr)
      else
        (case lookup v srv fh d tr of
           (Inl err, tr1) \<Rightarrow> (Some (Inl err), tr1)
         | (Inr (fattr', fh', _), tr1) \<Rightarrow>
             if is_symlink fattr' then
               if org \<noteq> None \<and> sameHandle (bytes fh') (bytes org)
               then (Some (Inl (Errorf ''recursed symlink'')), tr1)
               else
                 (case readlinkFh v srv fh' tr1 of
                    (Inl err, tr2) \<Rightarrow> (Some (Inl err), tr2)
                  | (Inr (_, target), tr2) \<Rightarrow>
                      (case n of
                         0 \<Rightarrow> (None, tr2)
                       | Suc m \<Rightarrow>
                           (case lookupInner_loop m v srv True fh' (strings_Split target)
                                   (None, Target_fh v, '''', None) tr2 of
                              (None, tr3) \<Rightarrow> (None, tr3)
                            | (Some (Inl _), tr3) \<Rightarrow> (Some (Inr (Some fattr', None, d, fh)), tr3)
                            | (Some (Inr (_, fh'', _, _)), tr3) \<Rightarrow>
                                (Some (Inr (Some fattr', fh'', d, fh)), tr3))))
             else (Some (Inr (Some fattr', fh', d, fh)), tr1)))"
  by (simp split: prod.splits sum.splits option.splits nat.splits)

lemma emits_visit:
  assumes IH: "\<And>m org ds st tr r tr'. n = Suc m \<Longrightarrow>
      lookupInner_loop m v srv True org ds st tr = (r, tr') \<Longrightarrow> emits v tr tr'"
  shows "lookupInner_loop n v srv True org [d] st tr = (r, tr') \<Longrightarrow> emits v tr tr'"
proof -
  obtain fattr fh dirent prevFh where st: "st = (fattr, fh, dirent, prevFh)"
    by (cases st) auto
  show "lookupInner_loop n v srv True org [d] st tr = (r, tr') \<Longrightarrow> emits v tr tr'"
    unfolding st lookupInner_loop_single
    by (auto split: if_splits prod.splits sum.splits option.splits nat.splits
          dest!: emits_lookup emits_readlinkFh IH intro: emits_trans)
qed

lemma emits_lookupInner_loop_True:
  "lookupInner_loop n v srv True org ds st tr = (r, tr') \<Longrightarrow> emits v tr tr'"
proof (induction n arbitrary: org ds st tr r tr')
  case 0
  then show ?case
  proof (induction ds arbitrary: st tr)
    case Nil
    then show ?case by auto
  next
    case (Cons d ds)
    then show ?case
      by (auto simp: lookupInner_loop_head [of ds True] simp del: lookupInner_loop.simps(2)
            split: prod.splits sum.splits option.splits
            dest!: emits_visit [rotated] intro: emits_trans)
  qed
next
  case (Suc n)
  from Suc.prems show ?case
  proof (induction ds arbitrary: st tr)
    case Nil
    then show ?case by auto
  next
    case (Cons d ds)
    have v: "\<And>d st tr r tr'. lookupInner_loop (Suc n) v srv True org [d] st tr = (r, tr') \<Longrightarrow> emits v tr tr'"
      by (rule emits_visit) (auto dest: Suc.IH)
    from Cons show ?case
      by (auto simp: lookupInner_loop_head [of ds True] simp del: lookupInner_loop.simps(2)
            split: prod.splits sum.splits option.splits
            dest!: v intro: emits_trans)
  qed
qed


lemma emits_lookupInner_loop:
  "lookupInner_loop n v srv ll org ds st tr = (r, tr') \<Longrightarrow> emits v tr tr'"
proof (cases "ll \<or> ds = []")
  case True
  assume "lookupInner_loop n v srv ll org ds st tr = (r, tr')"
  with True show ?thesis by (auto dest: emits_lookupInner_loop_True)
next
  case False
  assume a: "lookupInner_loop n v srv ll org ds st tr = (r, tr')"
  from False obtain ds' d where ds: "ds = ds' @ [d]"
    by (metis rev_exhaust)
  obtain r1 tr1 where p: "lookupInner_loop n v srv True org ds' st tr = (r1, tr1)"
    by force
  have e: "emits v tr tr1" using p by (rule emits_lookupInner_loop_True)
  have "tr' = tr1"
    using a False p unfolding ds
    by (cases r1; simp add: lookupInner_loop_append del: lookupInner_loop.simps(2))
       (auto split: sum.splits)
  with e show ?thesis by simp
qed

lemma emits_lookupInner:
  "lookupInner n v srv fh p ll org tr = (r, tr') \<Longrightarrow> emits v tr tr'"
  unfolding lookupInner_def by (rule emits_lookupInner_loop)

lemma emits_Lookup: "Lookup n v srv p tr = (r, tr') \<Longrightarrow> emits v tr tr'"
  by (auto simp: Lookup_def split: prod.splits sum.splits option.splits dest: emits_lookupInner)

lemma emits_ReadDirPlus_loop:
  "ReadDirPlus_loop n v srv fh cookie verf entries tr = (r, tr') \<Longrightarrow> emits v tr tr'"
proof (induction n arbitrary: cookie verf entries tr)
  case 0
  then show ?case by auto
next
  case (Suc n)
  have e: "\<And>c verf. emits v tr (tr @ [ReadDirPlus3Args
             \<lparr>Rpcvers = 2, Prog = Nfs3Prog, Vers = Nfs3Vers, Proc = NFSProc3ReadDirPlus,
              Cred = Target_auth v, Verf = AuthNull\<rparr>
             fh c verf 512 4096])"
    by (rule emits_one) (simp add: hdr_simps)
  from Suc.prems show ?case
    by (auto simp: Let_def split: prod.splits sum.splits resbody.splits if_splits
          simp: e dest!: call_snd Suc.IH intro: emits_trans [OF e])
qed

lemma emits_ReadDirPlusByFh:
  "ReadDirPlusByFh n v srv fh tr = (r, tr') \<Longrightarrow> emits v tr tr'"
  unfolding ReadDirPlusByFh_def by (rule emits_ReadDirPlus_loop)

lemma emits_remove: "remove v srv fh name tr = (r, tr1) \<Longrightarrow> emits v tr tr1"
  by (auto simp: remove_def hdr_simps intro!: emits_one dest!: call_snd
        split: prod.splits sum.splits)

lemma emits_rmDir: "rmDir v srv fh name tr = (r, tr1) \<Longrightarrow> emits v tr tr1"
  by (auto simp: rmDir_def hdr_simps intro!: emits_one dest!: call_snd
        split: prod.splits sum.splits)

lemma removeAll_entries_head:
  "removeAll_entries n v srv fh (entry # entries) tr =
     (case removeAll_entries n v srv fh [entry] tr of
        (Some (Inr _), tr') \<Rightarrow> removeAll_entries n v srv fh entries tr'
      | r \<Rightarrow> r)"
  by (simp split: prod.splits sum.splits option.splits)

lemma emits_remove_entry:
  assumes IH: "\<And>fh tr r tr'. removeAll_fh n v srv fh tr = (r, tr') \<Longrightarrow> emits v tr tr'"
  shows "removeAll_entries n v srv fh [entry] tr = (r, tr') \<Longrightarrow> emits v tr tr'"
  by (auto split: if_splits prod.splits sum.splits option.splits
        dest!: emits_rmDir emits_remove IH intro: emits_trans)

lemma emits_removeAll_entries:
  assumes IH: "\<And>fh tr r tr'. removeAll_fh n v srv fh tr = (r, tr') \<Longrightarrow> emits v tr tr'"
  shows "removeAll_entries n v srv fh es tr = (r, tr') \<Longrightarrow> emits v tr tr'"
proof (induction es arbitrary: tr)
  case Nil
  then show ?case by auto
next
  case (Cons entry es)
  obtain r1 tr1 where h: "removeAll_entries n v srv fh [entry] tr = (r1, tr1)"
    by force
  have e1: "emits v tr tr1" by (rule emits_remove_entry [OF IH h])
  have c: "(case (r1, tr1) of
              (Some (Inr _), tr') \<Rightarrow> removeAll_entries n v srv fh es tr'
            | r \<Rightarrow> r) = (r, tr')"
    using Cons.prems by (subst (asm) removeAll_entries_head) (simp only: h)
  show ?case
  proof (cases "\<exists>u. r1 = Some (Inr u)")
    case True
    then have "removeAll_entries n v srv fh es tr1 = (r, tr')" using c by auto
    then have "emits v tr1 tr'" by (rule Cons.IH)
    with e1 show ?thesis by (rule emits_trans)
  next
    case False
    then have "tr' = tr1" using c by (auto split: option.splits sum.splits)
    with e1 show ?thesis by simp
  qed
qed

lemma emits_removeAll_fh:
  "removeAll_fh n v srv fh tr = (r, tr') \<Longrightarrow> emits v tr tr'"
proof (induction n arbitrary: fh tr r tr')
  case 0
  then show ?case by auto
next
  case (Suc n)
  from Suc.prems show ?case
    by (auto split: prod.splits sum.splits option.splits
          dest!: emits_ReadDirPlusByFh emits_removeAll_entries [OF Suc.IH, rotated]
          intro: emits_trans)
qed

lemma emits_FSInfo: "FSInfo v srv tr = (r, tr1) \<Longrightarrow> emits v tr tr1"
  by (auto simp: FSInfo_def hdr_simps intro!: emits_one dest!: call_snd
        split: prod.splits sum.splits resbody.splits)

lemma emits_access: "access v srv fh p m tr = (r, tr1) \<Longrightarrow> emits v tr tr1"
  by (auto simp: access_def hdr_simps intro!: emits_one dest!: call_snd
        split: prod.splits sum.splits resbody.splits)

lemma emits_MkdirByParentFh: "MkdirByParentFh v srv fh name perm tr = (r, tr1) \<Longrightarrow> emits v tr tr1"
  by (auto simp: MkdirByParentFh_def hdr_simps intro!: emits_one dest!: call_snd
        split: prod.splits sum.splits resbody.splits)

lemma emits_CreateByFh: "CreateByFh v srv fh name perm tr = (r, tr1) \<Longrightarrow> emits v tr tr1"
  by (auto simp: CreateByFh_def hdr_simps intro!: emits_one dest!: call_snd
        split: prod.splits sum.splits resbody.splits)

lemma emits_GetAttrFh: "GetAttrFh v srv fh tr = (r, tr1) \<Longrightarrow> emits v tr tr1"
  by (auto simp: GetAttrFh_def hdr_simps intro!: emits_one dest!: call_snd
        split: prod.splits sum.splits resbody.splits)

lemma emits_GetAttrByFh: "GetAttrByFh v srv fh tr = (r, tr1) \<Longrightarrow> emits v tr tr1"
  by (auto simp: GetAttrByFh_def hdr_simps intro!: emits_one dest!: call_snd
        split: prod.splits sum.splits resbody.splits)

lemma emits_SetAttrByFh: "SetAttrByFh v srv fh a tr = (r, tr1) \<Longrightarrow> emits v tr tr1"
  by (auto simp: SetAttrByFh_def hdr_simps intro!: emits_one dest!: call_snd
        split: prod.splits sum.splits resbody.splits)

lemma emits_RenameByFh: "RenameByFh v srv f fn t tn tr = (r, tr1) \<Longrightarrow> emits v tr tr1"
  by (auto simp: RenameByFh_def hdr_simps intro!: emits_one dest!: call_snd
        split: prod.splits sum.splits resbody.splits)

lemma emits_Access: "Access n v srv p m tr = (r, tr1) \<Longrightarrow> emits v tr tr1"
  by (auto simp: Access_def split: prod.splits sum.splits option.splits
        dest!: emits_Lookup emits_access intro: emits_trans)

lemma emits_ReadDirPlus: "ReadDirPlus n v srv p tr = (r, tr1) \<Longrightarrow> emits v tr tr1"
  by (auto simp: ReadDirPlus_def split: prod.splits sum.splits option.splits
        dest!: emits_Lookup emits_ReadDirPlusByFh intro: emits_trans)

lemma emits_Mkdir: "Mkdir n v srv p perm tr = (r, tr1) \<Longrightarrow> emits v tr tr1"
  by (auto simp: Mkdir_def split: prod.splits sum.splits option.splits
        dest!: emits_Lookup emits_MkdirByParentFh intro: emits_trans)

lemma emits_Create: "Create n v srv p perm tr = (r, tr1) \<Longrightarrow> emits v tr tr1"
  by (auto simp: Create_def split: prod.splits sum.splits option.splits
        dest!: emits_lookupInner emits_CreateByFh intro: emits_trans)

lemma emits_CreateTruncate: "CreateTruncate n v srv p perm sz tr = (r, tr1) \<Longrightarrow> emits v tr tr1"
proof -
  assume a: "CreateTruncate n v srv p perm sz tr = (r, tr1)"
  obtain r0 tr0 where l: "lookupInner n v srv (Target_fh v) p False None tr = (r0, tr0)"
    by force
  have e0: "emits v tr tr0" by (rule emits_lookupInner [OF l])
  have "tr1 = tr0 \<or> (\<exists>c. tr1 = tr0 @ [c] \<and> standard_header v c)"
    using a l
    by (auto simp: CreateTruncate_def hdr_simps split: prod.splits sum.splits option.splits
          resbody.splits dest!: call_snd)
  then show ?thesis using e0 by (auto intro: emits_trans emits_one)
qed

lemma emits_GetAttr: "GetAttr n v srv p tr = (r, tr1) \<Longrightarrow> emits v tr tr1"
  by (auto simp: GetAttr_def split: prod.splits sum.splits option.splits
        dest!: emits_Lookup emits_GetAttrFh intro: emits_trans)

lemma emits_Remove: "Remove n v srv p tr = (r, tr1) \<Longrightarrow> emits v tr tr1"
  by (auto simp: Remove_def split: prod.splits sum.splits option.splits
        dest!: emits_Lookup emits_remove intro: emits_trans)

lemma emits_RmDir: "RmDir n v srv p tr = (r, tr1) \<Longrightarrow> emits v tr tr1"
  by (auto simp: RmDir_def split: prod.splits sum.splits option.splits
        dest!: emits_Lookup emits_rmDir intro: emits_trans)

lemma emits_Readlink: "Readlink n v srv p tr = (r, tr1) \<Longrightarrow> emits v tr tr1"
  by (auto simp: Readlink_def split: prod.splits sum.splits option.splits
        dest!: emits_Lookup emits_readlinkFh intro: emits_trans)

lemma emits_Rename: "Rename n v srv p q tr = (r, tr1) \<Longrightarrow> emits v tr tr1"
  by (auto simp: Rename_def split: prod.splits sum.splits option.splits if_splits
        dest!: emits_lookupInner emits_RenameByFh intro: emits_trans)

lemma emits_RemoveAll: "RemoveAll n v srv p tr = (r, tr1) \<Longrightarrow> emits v tr tr1"
  apply (auto simp: RemoveAll_def split: prod.splits sum.splits option.splits if_splits
        dest!: emits_lookupInner emits_rmDir emits_removeAll_fh intro: emits_trans)
   apply (meson emits_trans)+
  done

text \<open>
  C7: every operation of the Target only adds requests to the channel's history, and each
  request it adds has the header rpcvers 2, prog 100003, vers 3, the procedure of its
  argument struct, the Target's credential and the AUTH_NULL verifier. This holds for every
  server and every amount of fuel, also when the fuel runs out.
\<close>

theorem every_request_has_standard_header:
  "emits v tr (snd (FSInfo v srv tr))
   \<and> emits v tr (snd (Lookup n v srv p tr))
   \<and> emits v tr (snd (lookupInner n v srv fh p ll org tr))
   \<and> emits v tr (snd (Access n v srv p m tr))
   \<and> emits v tr (snd (ReadDirPlus n v srv p tr))
   \<and> emits v tr (snd (ReadDirPlusByFh n v srv fh tr))
   \<and> emits v tr (snd (Mkdir n v srv p perm tr))
   \<and> emits v tr (snd (MkdirByParentFh v srv fh name perm tr))
   \<and> emits v tr (snd (Create n v srv p perm tr))
   \<and> emits v tr (snd (CreateTruncate n v srv p perm sz tr))
   \<and> emits v tr (snd (CreateByFh v srv fh name perm tr))
   \<and> emits v tr (snd (GetAttr n v srv p tr))
   \<and> emits v tr (snd (GetAttrFh v srv fh tr))
   \<and> emits v tr (snd (GetAttrByFh v srv fh tr))
   \<and> emits v tr (snd (SetAttrByFh v srv fh sattr tr))
   \<and> emits v tr (snd (Remove n v srv p tr))
   \<and> emits v tr (snd (RmDir n v srv p tr))
   \<and> emits v tr (snd (RemoveAll n v srv p tr))
   \<and> emits v tr (snd (Rename n v srv p q tr))
   \<and> emits v tr (snd (RenameByFh v srv fh name fh' name' tr))
   \<and> emits v tr (snd (Readlink n v srv p tr))"
  by (intro conjI emits_FSInfo [OF surjective_pairing] emits_Lookup [OF surjective_pairing]
        emits_lookupInner [OF surjective_pairing] emits_Access [OF surjective_pairing]
        emits_ReadDirPlus [OF surjective_pairing] emits_ReadDirPlusByFh [OF surjective_pairing]
        emits_Mkdir [OF surjective_pairing] emits_MkdirByParentFh [OF surjective_pairing]
        emits_Create [OF surjective_pairing] emits_CreateTruncate [OF surjective_pairing]
        emits_CreateByFh [OF surjective_pairing] emits_GetAttr [OF surjective_pairing]
        emits_GetAttrFh [OF surjective_pairing] emits_GetAttrByFh [OF surjective_pairing]
        emits_SetAttrByFh [OF surjective_pairing] emits_Remove [OF surjective_pairing]
        emits_RmDir [OF surjective_pairing] emits_RemoveAll [OF surjective_pairing]
        emits_Rename [OF surjective_pairing] emits_RenameByFh [OF surjective_pairing]
        emits_Readlink [OF surjective_pairing])

theorem every_request_has_standard_header_witness:
  "emits example_target []
     [Lookup3Args \<lparr>Rpcvers = 2, Prog = 100003, Vers = 3, Proc = NFSProc3Lookup,
                   Cred = \<lparr>Flavor = 1, Body = [7]\<rparr>, Verf = \<lparr>Flavor = 0, Body = []\<rparr>\<rparr>
        \<lparr>FH = Some [0], Filename = ''l''\<rparr>,
      Readlink3Arg \<lparr>Rpcvers = 2, Prog = 100003, Vers = 3, Proc = NFSProc3Readlink,
                    Cred = \<lparr>Flavor = 1, Body = [7]\<rparr>, Verf = \<lparr>Flavor = 0, Body = []\<rparr>\<rparr>
        (Some [4]),
      Lookup3Args \<lparr>Rpcvers = 2, Prog = 100003, Vers = 3, Proc = NFSProc3Lookup,
                   Cred = \<lparr>Flavor = 1, Body = [7]\<rparr>, Verf = \<lparr>Flavor = 0, Body = []\<rparr>\<rparr>
        \<lparr>FH = Some [0], Filename = ''f''\<rparr>]"
  using every_request_has_standard_header
          [of example_target "[]" example_server 1 "''l''", THEN conjunct2, THEN conjunct1]
  by (simp add: example_defs Nfs3Prog_def Nfs3Vers_def AuthNull_def)

subsection \<open>Lookup and GetAttr\<close>

text \<open>On a server that answers from the request alone, the resolver's result does not depend on
  the history.\<close>

lemma call_stateless: "fst (call (\<lambda>_. s) c tr) = fst (call (\<lambda>_. s) c tr')"
  by (simp add: call_def split: rpc_reply.splits option.splits)











subsection \<open>The recursive remover\<close>









end
